theory Spec2Isabelle
  imports Main "HOL-Library.Sublist"
begin

section \<open>The signup backend: data\<close>

text \<open>
  The server (\<^verbatim>\<open>src/backend/server.js\<close>) has two routes.  \<^verbatim>\<open>GET /api/status\<close> answers
  with a constant object.  \<^verbatim>\<open>POST /api/create\<close> drives a headless browser through the
  signup form of a third-party site and reports what it saw.

  The browser, the page and the wall clock are outside the program.  They are modelled by
  a \<open>world\<close>: for every place of the handler that calls the automation library it says
  whether that call throws, and it holds the data the page would hand back.  The handler
  is a function of a world and a request; it returns the final state (log, calls made,
  response sent) and the exceptions that were caught or that escaped.
\<close>

subsection \<open>Request bodies\<close>

text \<open>
  \<^verbatim>\<open>express.json()\<close> parses the body into an object, so a field can hold any JSON
  value; a field that is missing reads as \<^verbatim>\<open>undefined\<close>, modelled by \<open>None\<close>.  Only
  \<^verbatim>\<open>proxy\<close> is inspected by the handler; the account fields are handed to the page as they
  are and are kept as strings (\<^verbatim>\<open>gender\<close> is read from the body and never used).  In
  \<open>JNum\<close> only being zero or not matters.
\<close>

datatype json =
    JNull
  | JBool bool
  | JNum int
  | JStr string
  | JArr "json list"
  | JObj "(string \<times> json) list"

record request =
  email :: string
  password :: string
  birthYear :: string
  birthMonth :: string
  birthDay :: string
  gender :: string
  proxy :: "json option"

text \<open>JavaScript's truthiness, as \<^verbatim>\<open>if (proxy)\<close> tests it.\<close>

fun truthy :: "json option \<Rightarrow> bool" where
  "truthy None = False"
| "truthy (Some JNull) = False"
| "truthy (Some (JBool b)) = b"
| "truthy (Some (JNum n)) = (n \<noteq> 0)"
| "truthy (Some (JStr s)) = (s \<noteq> [])"
| "truthy (Some (JArr xs)) = True"
| "truthy (Some (JObj kvs)) = True"

subsection \<open>Strings\<close>

text \<open>\<^verbatim>\<open>s.split(c)\<close> for a one-character separator: the pieces between the separators,
  never an empty array.\<close>

fun split :: "char \<Rightarrow> string \<Rightarrow> string list" where
  "split c [] = [[]]"
| "split c (x # xs) =
     (if x = c then [] # split c xs
      else (case split c xs of
              [] \<Rightarrow> [[x]]
            | p # ps \<Rightarrow> (x # p) # ps))"

text \<open>\<^verbatim>\<open>s.includes(sub)\<close>: \<open>sub\<close> occurs in \<open>s\<close> as a contiguous piece.\<close>

fun includes_str :: "string \<Rightarrow> string \<Rightarrow> bool" where
  "includes_str [] sub = (sub = [])"
| "includes_str (c # cs) sub = (prefix sub (c # cs) \<or> includes_str cs sub)"

subsection \<open>Exceptions, log records, responses\<close>

text \<open>Every exception the handler can meet is an \<^verbatim>\<open>Error\<close> object (the library's
  \<^verbatim>\<open>TimeoutError\<close> and \<^verbatim>\<open>ProtocolError\<close>, the engine's \<^verbatim>\<open>TypeError\<close>); the handler reads
  nothing of it but \<^verbatim>\<open>error.message\<close>.\<close>

datatype js_error = Error (error_message: string)

text \<open>A log record, \<^verbatim>\<open>{ message: msg, type, timestamp }\<close>.  The field \<open>type\<close> holds the
  record's category (\<^verbatim>\<open>'info'\<close>, \<^verbatim>\<open>'network'\<close>, \<^verbatim>\<open>'warning'\<close>, \<^verbatim>\<open>'success'\<close>, \<^verbatim>\<open>'error'\<close>).\<close>

record log_entry =
  message :: string
  type :: string
  timestamp :: string

text \<open>The body of an answer of \<^verbatim>\<open>/api/create\<close>: \<^verbatim>\<open>{ success, logs }\<close> or
  \<^verbatim>\<open>{ success, logs, error }\<close>; \<open>error = None\<close> is the object without the key.\<close>

record create_body =
  success :: bool
  logs :: "log_entry list"
  error :: "string option"

record response =
  statusCode :: nat
  body :: create_body

record status_body =
  status :: string
  mode :: string
  version :: string

subsection \<open>The outside world\<close>

text \<open>The places of the handler that call the automation library, in source order.
  \<^verbatim>\<open>browser.close()\<close> is called at three places (lines 125, 147 and 150).\<close>

datatype site =
    Launch | NewPage | Authenticate | Goto
  | WaitEmail | TypeEmail | QueryNext | ClickNext
  | WaitPassword | TypePassword
  | TypeYear | SelectMonth | TypeDay
  | ClickSubmit | PageUrl | CloseOnSuccess
  | QueryError | EvaluateText | Frames
  | CloseInCatch | CloseInFinally

record world =
  throws :: "site \<Rightarrow> js_error option"
  nextBtn :: bool
  currentUrl :: string
  errorEl :: "string option"
  frameUrls :: "string list"
  clock :: "nat \<Rightarrow> string"

text \<open>
  \<^item> \<open>throws w c\<close>: the exception the call at place \<open>c\<close> raises, \<open>None\<close> when it returns;
  \<^item> \<open>nextBtn w\<close>: \<^verbatim>\<open>page.$('button[data-testid="submit"]')\<close> finds an element;
  \<^item> \<open>currentUrl w\<close>: what \<^verbatim>\<open>page.url()\<close> returns after the submission;
  \<^item> \<open>errorEl w\<close>: the \<^verbatim>\<open>textContent\<close> of the first element matching the error
    selector, \<open>None\<close> when \<^verbatim>\<open>page.$\<close> returns \<^verbatim>\<open>null\<close>;
  \<^item> \<open>frameUrls w\<close>: the URLs of \<^verbatim>\<open>page.frames()\<close>, in order;
  \<^item> \<open>clock w n\<close>: \<^verbatim>\<open>new Date().toLocaleTimeString()\<close> at the \<open>n\<close>-th reading of the
    clock (counted from 0); \<^verbatim>\<open>addLog\<close> is the only reader.
\<close>

subsection \<open>The state of one request\<close>

record st =
  log :: "log_entry list"
  calls :: "(site \<times> string list) list"
  browser :: bool
  sent :: "response option"

text \<open>
  \<open>log\<close> is the array \<^verbatim>\<open>log\<close>; \<open>calls\<close> lists the library calls attempted so far with
  their string arguments; \<open>browser\<close> says that the variable \<^verbatim>\<open>browser\<close> is not \<^verbatim>\<open>null\<close>;
  \<open>sent\<close> is the response written to \<^verbatim>\<open>res\<close>, if any.
\<close>

definition init :: st where
  "init = \<lparr>log = [], calls = [], browser = False, sent = None\<rparr>"

section \<open>The handlers\<close>

subsection \<open>Sequencing with exceptions\<close>

text \<open>A statement maps a state to a result and a new state; \<open>Inl e\<close> is a thrown \<open>e\<close>.\<close>

definition ret :: "'a \<Rightarrow> st \<Rightarrow> (js_error + 'a) \<times> st" where
  "ret x s = (Inr x, s)"

definition throw :: "js_error \<Rightarrow> st \<Rightarrow> (js_error + 'a) \<times> st" where
  "throw e s = (Inl e, s)"

definition thenDo ::
  "(st \<Rightarrow> (js_error + 'a) \<times> st) \<Rightarrow> ('a \<Rightarrow> st \<Rightarrow> (js_error + 'b) \<times> st) \<Rightarrow>
   st \<Rightarrow> (js_error + 'b) \<times> st" where
  "thenDo m k s = (case m s of (Inl e, s') \<Rightarrow> (Inl e, s') | (Inr x, s') \<Rightarrow> k x s')"

definition andThen ::
  "(st \<Rightarrow> (js_error + unit) \<times> st) \<Rightarrow> (st \<Rightarrow> (js_error + 'b) \<times> st) \<Rightarrow>
   st \<Rightarrow> (js_error + 'b) \<times> st" where
  "andThen m k = thenDo m (\<lambda>_. k)"

definition tryCatch ::
  "(st \<Rightarrow> (js_error + 'a) \<times> st) \<Rightarrow> (js_error \<Rightarrow> st \<Rightarrow> (js_error + 'a) \<times> st) \<Rightarrow>
   st \<Rightarrow> (js_error + 'a) \<times> st" where
  "tryCatch m h s = (case m s of (Inl e, s') \<Rightarrow> h e s' | (Inr x, s') \<Rightarrow> (Inr x, s'))"

definition modify :: "(st \<Rightarrow> st) \<Rightarrow> st \<Rightarrow> (js_error + unit) \<times> st" where
  "modify f s = (Inr (), f s)"

text \<open>A call of the library at place \<open>c\<close>: it is recorded, then it throws or returns.\<close>

definition ext :: "world \<Rightarrow> site \<Rightarrow> string list \<Rightarrow> st \<Rightarrow> (js_error + unit) \<times> st" where
  "ext w c args s =
     (case throws w c of
        Some e \<Rightarrow> (Inl e, s\<lparr>calls := calls s @ [(c, args)]\<rparr>)
      | None \<Rightarrow> (Inr (), s\<lparr>calls := calls s @ [(c, args)]\<rparr>))"

definition extv :: "world \<Rightarrow> site \<Rightarrow> string list \<Rightarrow> 'a \<Rightarrow> st \<Rightarrow> (js_error + 'a) \<times> st" where
  "extv w c args v = thenDo (ext w c args) (\<lambda>_. ret v)"

text \<open>\<^verbatim>\<open>sleep(ms)\<close> only waits.\<close>

definition sleep :: "nat \<Rightarrow> st \<Rightarrow> (js_error + unit) \<times> st" where
  "sleep ms = ret ()"

subsection \<open>\<^verbatim>\<open>addLog\<close> and \<^verbatim>\<open>res.json\<close>\<close>

text \<open>\<^verbatim>\<open>addLog\<close> pushes a record onto the log, stamped with the time of the call; the line
  it also prints on the console is left out.  \<^verbatim>\<open>res.json\<close> writes the response, with the
  log as it is at that moment; \<^verbatim>\<open>res.status(500).json\<close> is \<open>res_json 500\<close>, and a plain
  \<^verbatim>\<open>res.json\<close> has status 200.\<close>

definition addLog :: "world \<Rightarrow> string \<Rightarrow> string \<Rightarrow> st \<Rightarrow> st" where
  "addLog w msg ty s =
     s\<lparr>log := log s @ [\<lparr>message = msg, type = ty, timestamp = clock w (length (log s))\<rparr>]\<rparr>"

definition res_json :: "nat \<Rightarrow> bool \<Rightarrow> string option \<Rightarrow> st \<Rightarrow> (js_error + unit) \<times> st" where
  "res_json code ok err s =
     (Inr (), s\<lparr>sent := Some \<lparr>statusCode = code,
                             body = \<lparr>success = ok, logs = log s, error = err\<rparr>\<rparr>\<rparr>)"

subsection \<open>\<^verbatim>\<open>GET /api/status\<close>\<close>

definition api_status :: "'req \<Rightarrow> status_body" where
  "api_status req = \<lparr>status = ''online'', mode = ''puppeteer'', version = ''5.0.0''\<rparr>"

subsection \<open>\<^verbatim>\<open>POST /api/create\<close>: the \<^verbatim>\<open>try\<close> block\<close>

text \<open>\<^verbatim>\<open>proxy.split(':')\<close>.  Only a string has the method; on any other value the call is
  a \<^verbatim>\<open>TypeError\<close>.\<close>

definition proxy_split :: "json option \<Rightarrow> st \<Rightarrow> (js_error + string list) \<times> st" where
  "proxy_split p =
     (case p of
        Some (JStr s) \<Rightarrow> ret (split CHR '':'' s)
      | _ \<Rightarrow> throw (Error ''proxy.split is not a function''))"

text \<open>Lines 38 to 52: the arguments of the browser.  \<open>defaultArgs\<close> is the array
  \<^verbatim>\<open>launchArgs\<close> as it is initialised; the proxy argument is pushed onto it.\<close>

definition defaultArgs :: "string list" where
  "defaultArgs = [''--no-sandbox'', ''--disable-setuid-sandbox'',
                  ''--disable-dev-shm-usage'', ''--window-size=1280,800'']"

definition launchArgs :: "request \<Rightarrow> st \<Rightarrow> (js_error + string list) \<times> st" where
  "launchArgs req =
     (if truthy (proxy req)
      then thenDo (proxy_split (proxy req)) (\<lambda>parts.
             if 2 \<le> length parts
             then ret (defaultArgs @ [''--proxy-server='' @ parts ! 0 @ '':'' @ parts ! 1])
             else ret defaultArgs)
      else ret defaultArgs)"

text \<open>Lines 62 to 67: proxy authentication.\<close>

definition proxyAuth :: "world \<Rightarrow> request \<Rightarrow> st \<Rightarrow> (js_error + unit) \<times> st" where
  "proxyAuth w req =
     (if truthy (proxy req)
      then thenDo (proxy_split (proxy req)) (\<lambda>parts.
             if length parts = 4
             then ext w Authenticate [parts ! 2, parts ! 3]
             else ret ())
      else ret ())"

text \<open>Lines 36 to 67: log, launch the browser, open a page, authenticate.\<close>

definition openBrowser :: "world \<Rightarrow> request \<Rightarrow> st \<Rightarrow> (js_error + unit) \<times> st" where
  "openBrowser w req =
     andThen (modify (addLog w (''Initiating Browser for: '' @ email req) ''info''))
    (thenDo (launchArgs req) (\<lambda>args.
     andThen (ext w Launch args)
    (andThen (modify (\<lambda>s. s\<lparr>browser := True\<rparr>))
    (andThen (ext w NewPage [])
    (proxyAuth w req)))))"

text \<open>Lines 69 to 97: navigate, enter the e-mail address, step over the optional
  ``Next'' button, enter the password.\<close>

definition fillCredentials :: "world \<Rightarrow> request \<Rightarrow> st \<Rightarrow> (js_error + unit) \<times> st" where
  "fillCredentials w req =
     andThen (modify (addLog w ''Navigating to Spotify Signup...'' ''network''))
    (andThen (ext w Goto [''https://www.spotify.com/signup''])
    (andThen (modify (addLog w ''Waiting for form...'' ''info''))
    (andThen (ext w WaitEmail [''input#email, input[name=\"email\"]''])
    (andThen (ext w TypeEmail [''input#email, input[name=\"email\"]'', email req])
    (andThen (modify (addLog w ''Entered Email'' ''info''))
    (andThen (sleep 500)
    (thenDo (extv w QueryNext [''button[data-testid=\"submit\"]''] (nextBtn w)) (\<lambda>btn.
     andThen (if btn then andThen (ext w ClickNext []) (sleep 1000) else ret ())
    (andThen (ext w WaitPassword [''input#password, input[type=\"password\"]''])
    (andThen (ext w TypePassword [''input#password, input[type=\"password\"]'', password req])
    (modify (addLog w ''Entered Password'' ''info''))))))))))))"

text \<open>Lines 99 to 111: the profile inputs, inside a \<^verbatim>\<open>try\<close> of their own.\<close>

definition fillProfile :: "world \<Rightarrow> request \<Rightarrow> st \<Rightarrow> (js_error + unit) \<times> st" where
  "fillProfile w req =
     andThen (modify (addLog w ''Filling Profile details...'' ''info''))
    (tryCatch
       (andThen (ext w TypeYear [''input#year'', birthYear req])
       (andThen (ext w SelectMonth [''select#month'', birthMonth req])
       (ext w TypeDay [''input#day'', birthDay req])))
       (\<lambda>e. modify (addLog w ''Profile inputs varying, attempting fallbacks...'' ''warning'')))"

text \<open>Lines 113 to 119: submit and wait.\<close>

definition submitForm :: "world \<Rightarrow> st \<Rightarrow> (js_error + unit) \<times> st" where
  "submitForm w =
     andThen (modify (addLog w ''Clicking Submit...'' ''network''))
    (andThen (ext w ClickSubmit [''button[type=\"submit\"]''])
    (andThen (modify (addLog w ''Verifying submission...'' ''info''))
    (sleep 3000)))"

text \<open>Lines 121 to 143: read the URL and the page, and answer.\<close>

definition classifyOutcome :: "world \<Rightarrow> st \<Rightarrow> (js_error + unit) \<times> st" where
  "classifyOutcome w =
     thenDo (extv w PageUrl [] (currentUrl w)) (\<lambda>url.
       if includes_str url ''download'' \<or> includes_str url ''overview''
          \<or> includes_str url ''account''
       then andThen (modify (addLog w ''Account Successfully Created!'' ''success''))
           (andThen (ext w CloseOnSuccess [])
           (res_json 200 True None))
       else thenDo (extv w QueryError
                      [''div[aria-label=\"Error\"], div[class*=\"Error\"]''] (errorEl w)) (\<lambda>el.
            thenDo (case el of
                      Some t \<Rightarrow> extv w EvaluateText [] t
                    | None \<Rightarrow> ret ''Unknown Error'') (\<lambda>errorText.
            thenDo (extv w Frames [] (frameUrls w)) (\<lambda>frames.
              case find (\<lambda>u. includes_str u ''arkoselabs'') frames of
                Some f \<Rightarrow>
                  andThen (modify (addLog w
                     ''FAILED: Captcha Challenge Triggered. Automation detected.'' ''error''))
                 (res_json 200 False (Some
                     ''Captcha Challenge. You need a residential proxy or manual intervention.''))
              | None \<Rightarrow>
                  andThen (modify (addLog w (''Failed: '' @ errorText) ''error''))
                 (res_json 200 False (Some errorText))))))"

definition tryBlock :: "world \<Rightarrow> request \<Rightarrow> st \<Rightarrow> (js_error + unit) \<times> st" where
  "tryBlock w req =
     andThen (openBrowser w req)
    (andThen (fillCredentials w req)
    (andThen (fillProfile w req)
    (andThen (submitForm w)
    (classifyOutcome w))))"

subsection \<open>\<^verbatim>\<open>catch\<close>, \<^verbatim>\<open>finally\<close> and the whole handler\<close>

text \<open>Lines 145 to 148.\<close>

definition catchBlock :: "world \<Rightarrow> js_error \<Rightarrow> st \<Rightarrow> (js_error + unit) \<times> st" where
  "catchBlock w e =
     andThen (modify (addLog w (''Critical Error: '' @ error_message e) ''error''))
    (andThen (\<lambda>s. if browser s then ext w CloseInCatch [] s else ret () s)
    (res_json 500 False (Some (error_message e))))"

text \<open>Lines 149 to 151.\<close>

definition finallyBlock :: "world \<Rightarrow> st \<Rightarrow> (js_error + unit) \<times> st" where
  "finallyBlock w s = (if browser s then ext w CloseInFinally [] s else ret () s)"

text \<open>
  What one request leaves behind: the final state, the exception that reached the outer
  \<^verbatim>\<open>catch\<close> (if any), and the exception that left the handler (if any).  An exception
  thrown by \<^verbatim>\<open>finally\<close> replaces one thrown by \<^verbatim>\<open>catch\<close>.
\<close>

record outcome =
  state :: st
  caught :: "js_error option"
  escaped :: "js_error option"

definition api_create :: "world \<Rightarrow> request \<Rightarrow> outcome" where
  "api_create w req =
     (case tryBlock w req init of (r1, s1) \<Rightarrow>
      case (case r1 of Inl e \<Rightarrow> catchBlock w e s1 | Inr u \<Rightarrow> (Inr u, s1)) of (r2, s2) \<Rightarrow>
      case finallyBlock w s2 of (r3, s3) \<Rightarrow>
        \<lparr>state = s3,
         caught = (case r1 of Inl e \<Rightarrow> Some e | Inr u \<Rightarrow> None),
         escaped = (case r3 of
                      Inl e3 \<Rightarrow> Some e3
                    | Inr u \<Rightarrow> (case r2 of Inl e2 \<Rightarrow> Some e2 | Inr u \<Rightarrow> None))\<rparr>)"

section \<open>Notions used in the statements and the proofs\<close>

text \<open>None of these is part of the program; they name what the lemmas and theorems
  speak about.\<close>

text \<open>A statement preserves a property of the state when the property survives it,
  whether the statement returns or throws.\<close>

definition preserves :: "(st \<Rightarrow> bool) \<Rightarrow> (st \<Rightarrow> (js_error + 'a) \<times> st) \<Rightarrow> bool" where
  "preserves P m = (\<forall>s. P s \<longrightarrow> P (snd (m s)))"

text \<open>The calls made so far at the places in \<open>S\<close>.\<close>

definition watch :: "site set \<Rightarrow> st \<Rightarrow> (site \<times> string list) list" where
  "watch S s = filter (\<lambda>c. fst c \<in> S) (calls s)"

text \<open>The parts of the proxy string when the handler looks at it: none for a value that
  is not truthy.\<close>

definition proxyParts :: "json option \<Rightarrow> string list" where
  "proxyParts p =
     (case p of
        Some (JStr s) \<Rightarrow> if s = [] then [] else split CHR '':'' s
      | _ \<Rightarrow> [])"

text \<open>What \<^verbatim>\<open>catch\<close> and \<^verbatim>\<open>finally\<close> make of the result \<open>r1\<close> and the state \<open>s1\<close> the
  \<^verbatim>\<open>try\<close> block ends with.\<close>

definition settle :: "world \<Rightarrow> js_error + unit \<Rightarrow> st \<Rightarrow> outcome" where
  "settle w r1 s1 =
     (case (case r1 of Inl e \<Rightarrow> catchBlock w e s1 | Inr u \<Rightarrow> (Inr u, s1)) of (r2, s2) \<Rightarrow>
      case finallyBlock w s2 of (r3, s3) \<Rightarrow>
        \<lparr>state = s3,
         caught = (case r1 of Inl e \<Rightarrow> Some e | Inr u \<Rightarrow> None),
         escaped = (case r3 of
                      Inl e3 \<Rightarrow> Some e3
                    | Inr u \<Rightarrow> (case r2 of Inl e2 \<Rightarrow> Some e2 | Inr u \<Rightarrow> None))\<rparr>)"

text \<open>The time stamps of the log are the readings of the clock, in order.\<close>

definition stamped :: "world \<Rightarrow> st \<Rightarrow> bool" where
  "stamped w s = (map timestamp (log s) = map (clock w) [0..<length (log s)])"

text \<open>
  The places whose exceptions go to the outer \<^verbatim>\<open>catch\<close>: all but the three profile inputs
  (inside the inner \<^verbatim>\<open>try\<close>) and the two \<^verbatim>\<open>browser.close()\<close> of \<^verbatim>\<open>catch\<close> and
  \<^verbatim>\<open>finally\<close>.  A state is \<open>clean\<close> when no call made at such a place threw, and it is
  \<open>blamed\<close> on \<open>e\<close> when none threw anything but \<open>e\<close>.  A statement \<open>attributes\<close> its
  exceptions when, started in a clean state, it ends clean if it returns and blamed on the
  exception it throws otherwise.
\<close>

definition guarded :: "site \<Rightarrow> bool" where
  "guarded c = (c \<notin> {TypeYear, SelectMonth, TypeDay, CloseInCatch, CloseInFinally})"

definition clean :: "world \<Rightarrow> st \<Rightarrow> bool" where
  "clean w s = (\<forall>c\<in>set (calls s). guarded (fst c) \<longrightarrow> throws w (fst c) = None)"

definition blamed :: "world \<Rightarrow> js_error \<Rightarrow> st \<Rightarrow> bool" where
  "blamed w e s =
     (\<forall>c\<in>set (calls s). guarded (fst c) \<longrightarrow> throws w (fst c) = None \<or> throws w (fst c) = Some e)"

definition attributes :: "world \<Rightarrow> (st \<Rightarrow> (js_error + 'a) \<times> st) \<Rightarrow> bool" where
  "attributes w m =
     (\<forall>s. clean w s \<longrightarrow>
        (case m s of (Inl e, s') \<Rightarrow> blamed w e s' | (Inr x, s') \<Rightarrow> clean w s'))"

text \<open>The same world, with profile inputs that accept what is typed.\<close>

definition profileFixed :: "world \<Rightarrow> world" where
  "profileFixed w = w\<lparr>throws := (throws w)(TypeYear := None, SelectMonth := None, TypeDay := None)\<rparr>"

text \<open>A log record without its time stamp, and a response without its log.\<close>

definition plain :: "log_entry \<Rightarrow> string \<times> string" where
  "plain e = (message e, type e)"

definition verdict :: "response \<Rightarrow> nat \<times> bool \<times> string option" where
  "verdict r = (statusCode r, success (body r), error (body r))"

text \<open>
  Two states are \<open>similar\<close> when the second is the first without one warning record:
  same browser, same response up to the log, and the log of the first, its warnings
  removed, is the log of the second, which is one record shorter.  A statement runs in
  \<open>parallel\<close> on similar states when it ends with the same result in similar states.
\<close>

definition nowarn :: "st \<Rightarrow> bool" where
  "nowarn s = (\<forall>e\<in>set (log s). type e \<noteq> ''warning'')"

definition similar :: "st \<Rightarrow> st \<Rightarrow> bool" where
  "similar s t =
     (browser s = browser t
      \<and> map_option verdict (sent s) = map_option verdict (sent t)
      \<and> filter (\<lambda>p. snd p \<noteq> ''warning'') (map plain (log s)) = map plain (log t)
      \<and> length (log s) = Suc (length (log t)))"

definition parallel :: "(st \<Rightarrow> (js_error + 'a) \<times> st) \<Rightarrow> bool" where
  "parallel m =
     (\<forall>s t. similar s t \<longrightarrow> fst (m s) = fst (m t) \<and> similar (snd (m s)) (snd (m t)))"

section \<open>Sample requests and worlds\<close>

text \<open>A request without a proxy.\<close>

definition alice :: request where
  "alice = \<lparr>email = ''alice@example.org'', password = ''hunter2'', birthYear = ''1990'',
            birthMonth = ''4'', birthDay = ''17'', gender = ''f'', proxy = None\<rparr>"

text \<open>The same request through a proxy: given as host and port, with credentials, with a
  user name only, as a host name only, and as a number.\<close>

definition viaProxy :: request where
  "viaProxy = alice\<lparr>proxy := Some (JStr ''10.0.0.7:8080'')\<rparr>"

definition viaAuthProxy :: request where
  "viaAuthProxy = alice\<lparr>proxy := Some (JStr ''10.0.0.7:8080:bob:s3cret'')\<rparr>"

definition viaThreeParts :: request where
  "viaThreeParts = alice\<lparr>proxy := Some (JStr ''10.0.0.7:8080:bob'')\<rparr>"

definition viaHostOnly :: request where
  "viaHostOnly = alice\<lparr>proxy := Some (JStr ''localhost'')\<rparr>"

definition viaNumber :: request where
  "viaNumber = alice\<lparr>proxy := Some (JNum 8080)\<rparr>"

text \<open>Every call returns and the page ends on the download page.\<close>

definition calm :: world where
  "calm = \<lparr>throws = (\<lambda>c. None), nextBtn = True,
           currentUrl = ''https://www.spotify.com/download'',
           errorEl = None, frameUrls = [''https://www.spotify.com/download''],
           clock = (\<lambda>n. ''12:00:00'')\<rparr>"

text \<open>The page stays on the signup form and shows a challenge frame.\<close>

definition challenged :: world where
  "challenged = calm\<lparr>currentUrl := ''https://www.spotify.com/signup'',
       errorEl := Some ''Something went wrong'',
       frameUrls := [''https://www.spotify.com/signup'', ''https://client-api.arkoselabs.com/fc'']\<rparr>"

text \<open>The page stays on the signup form and shows an error banner.\<close>

definition rejected :: world where
  "rejected = calm\<lparr>currentUrl := ''https://www.spotify.com/signup'',
       errorEl := Some ''This address is already in use.'',
       frameUrls := [''https://www.spotify.com/signup'']\<rparr>"

text \<open>The \<open>n\<close>-th reading of the clock shows \<open>n\<close> strokes.\<close>

definition ticking :: world where
  "ticking = calm\<lparr>clock := (\<lambda>n. replicate n CHR ''I'')\<rparr>"

text \<open>The page has no input for the year of birth.\<close>

definition noYearInput :: world where
  "noYearInput = calm\<lparr>throws :=
     (\<lambda>c. None)(TypeYear := Some (Error ''No element found for selector: input#year''))\<rparr>"

text \<open>The signup page cannot be reached.\<close>

definition offline :: world where
  "offline = calm\<lparr>throws :=
     (\<lambda>c. None)(Goto := Some (Error ''net::ERR_NAME_NOT_RESOLVED''))\<rparr>"

text \<open>The navigation times out, and the browser can no longer be closed.\<close>

definition stuck :: world where
  "stuck = calm\<lparr>throws :=
     (\<lambda>c. None)(Goto := Some (Error ''Navigation timeout of 60000 ms exceeded''),
                 CloseInCatch := Some (Error ''Unable to kill the browser process''),
                 CloseInFinally := Some (Error ''Unable to kill the browser process''))\<rparr>"

section \<open>Lemmas about the statements\<close>

subsection \<open>Unfolding and sequencing\<close>

lemmas create_defs = api_create_def tryBlock_def openBrowser_def launchArgs_def proxyAuth_def
  proxy_split_def fillCredentials_def fillProfile_def submitForm_def classifyOutcome_def
  catchBlock_def finallyBlock_def defaultArgs_def init_def

lemma andThen_Inr:
  "andThen m k s = (Inr x, s') \<longleftrightarrow> (\<exists>s1. m s = (Inr (), s1) \<and> k s1 = (Inr x, s'))"
  by (auto simp: andThen_def thenDo_def split: prod.splits sum.splits)

lemma andThen_Inl:
  "andThen m k s = (Inl e, s') \<longleftrightarrow>
     m s = (Inl e, s') \<or> (\<exists>s1. m s = (Inr (), s1) \<and> k s1 = (Inl e, s'))"
  by (auto simp: andThen_def thenDo_def split: prod.splits sum.splits)

lemmas run_defs = thenDo_def andThen_def tryCatch_def extv_def ext_def ret_def throw_def
  modify_def sleep_def res_json_def addLog_def

subsection \<open>Preserved properties\<close>

lemma preservesD: "preserves P m \<Longrightarrow> P s \<Longrightarrow> m s = (r, s') \<Longrightarrow> P s'"
  by (auto simp: preserves_def)

lemma preserves_ret: "preserves P (ret x)"
  by (simp add: preserves_def ret_def)

lemma preserves_throw: "preserves P (throw e)"
  by (simp add: preserves_def throw_def)

lemma preserves_sleep: "preserves P (sleep n)"
  by (simp add: preserves_def sleep_def ret_def)

lemma preserves_thenDo:
  "preserves P m \<Longrightarrow> (\<And>x. preserves P (k x)) \<Longrightarrow> preserves P (thenDo m k)"
  by (auto simp: preserves_def thenDo_def split: prod.splits sum.splits)

lemma preserves_andThen:
  "preserves P m \<Longrightarrow> preserves P k \<Longrightarrow> preserves P (andThen m k)"
  by (simp add: andThen_def preserves_thenDo)

lemma preserves_tryCatch:
  "preserves P m \<Longrightarrow> (\<And>e. preserves P (h e)) \<Longrightarrow> preserves P (tryCatch m h)"
  by (auto simp: preserves_def tryCatch_def split: prod.splits sum.splits)

lemma preserves_modify: "(\<And>s. P s \<Longrightarrow> P (f s)) \<Longrightarrow> preserves P (modify f)"
  by (simp add: preserves_def modify_def)

lemma preserves_ext:
  "(\<And>s. P s \<Longrightarrow> P (s\<lparr>calls := calls s @ [(c, args)]\<rparr>)) \<Longrightarrow> preserves P (ext w c args)"
  by (simp add: preserves_def ext_def split: option.splits)

lemma preserves_extv:
  "(\<And>s. P s \<Longrightarrow> P (s\<lparr>calls := calls s @ [(c, args)]\<rparr>)) \<Longrightarrow> preserves P (extv w c args v)"
  by (simp add: extv_def preserves_thenDo preserves_ext preserves_ret)

lemma preserves_res_json:
  "(\<And>s. P s \<Longrightarrow> P (s\<lparr>sent := Some \<lparr>statusCode = code,
        body = \<lparr>success = ok, logs = log s, error = err\<rparr>\<rparr>\<rparr>)) \<Longrightarrow> preserves P (res_json code ok err)"
  by (simp add: preserves_def res_json_def)

lemma preserves_if:
  "(c \<Longrightarrow> preserves P a) \<Longrightarrow> (\<not> c \<Longrightarrow> preserves P b) \<Longrightarrow> preserves P (if c then a else b)"
  by simp

lemma preserves_if_state:
  "preserves P a \<Longrightarrow> preserves P b \<Longrightarrow> preserves P (\<lambda>s. if c s then a s else b s)"
  by (simp add: preserves_def)

lemma preserves_case_option:
  "preserves P a \<Longrightarrow> (\<And>x. preserves P (b x)) \<Longrightarrow>
   preserves P (case v of None \<Rightarrow> a | Some x \<Rightarrow> b x)"
  by (cases v) simp_all

lemma preserves_proxy_split: "preserves P (proxy_split p)"
  by (simp add: proxy_split_def preserves_ret preserves_throw split: option.splits json.splits)

lemmas preserves_intros = preserves_proxy_split
  preserves_ret preserves_throw preserves_sleep preserves_thenDo preserves_andThen
  preserves_tryCatch preserves_modify preserves_ext preserves_extv preserves_res_json
  preserves_if preserves_case_option

subsection \<open>The calls a statement can make\<close>

lemma watch_simps:
  "watch S (s\<lparr>calls := calls s @ [(c, a)]\<rparr>) = watch S s @ (if c \<in> S then [(c, a)] else [])"
  "watch S (s\<lparr>log := l\<rparr>) = watch S s"
  "watch S (s\<lparr>sent := r\<rparr>) = watch S s"
  "watch S (s\<lparr>browser := b\<rparr>) = watch S s"
  by (simp_all add: watch_def)

lemma keep_open:
  "S \<inter> {Launch, NewPage, Authenticate} = {} \<Longrightarrow>
   preserves (\<lambda>s. watch S s = cs) (openBrowser w req)"
  unfolding openBrowser_def launchArgs_def proxyAuth_def
  by (intro preserves_intros; simp add: addLog_def watch_simps)

lemma keep_cred:
  "S \<inter> {Goto, WaitEmail, TypeEmail, QueryNext, ClickNext, WaitPassword, TypePassword} = {} \<Longrightarrow>
   preserves (\<lambda>s. browser s = b \<and> watch S s = cs) (fillCredentials w req)"
  unfolding fillCredentials_def
  by (intro preserves_intros; simp add: addLog_def watch_simps)

lemma keep_profile:
  "S \<inter> {TypeYear, SelectMonth, TypeDay} = {} \<Longrightarrow>
   preserves (\<lambda>s. browser s = b \<and> watch S s = cs) (fillProfile w req)"
  unfolding fillProfile_def
  by (intro preserves_intros; simp add: addLog_def watch_simps)

lemma keep_submit:
  "ClickSubmit \<notin> S \<Longrightarrow>
   preserves (\<lambda>s. browser s = b \<and> watch S s = cs) (submitForm w)"
  unfolding submitForm_def
  by (intro preserves_intros; simp add: addLog_def watch_simps)

lemma keep_classify:
  "S \<inter> {PageUrl, CloseOnSuccess, QueryError, EvaluateText, Frames} = {} \<Longrightarrow>
   preserves (\<lambda>s. browser s = b \<and> watch S s = cs) (classifyOutcome w)"
  unfolding classifyOutcome_def
  by (intro preserves_intros; simp add: addLog_def watch_simps)

lemma keep_catch:
  "CloseInCatch \<notin> S \<Longrightarrow>
   preserves (\<lambda>s. browser s = b \<and> watch S s = cs) (catchBlock w e)"
  unfolding catchBlock_def
  by (intro preserves_intros preserves_if_state; simp add: addLog_def watch_simps)

lemma keep_finally:
  "CloseInFinally \<notin> S \<Longrightarrow>
   preserves (\<lambda>s. browser s = b \<and> watch S s = cs) (finallyBlock w)"
  unfolding finallyBlock_def[abs_def]
  by (intro preserves_intros preserves_if_state; simp add: addLog_def watch_simps)

subsection \<open>The shape of a run\<close>

lemma api_create_final:
  "\<exists>s2. state (api_create w req) = snd (finallyBlock w s2)"
  by (auto simp: api_create_def split: prod.splits sum.splits) (metis snd_conv)+

lemma finally_calls:
  "calls (snd (finallyBlock w s)) = calls s @ (if browser s then [(CloseInFinally, [])] else [])"
  "browser (snd (finallyBlock w s)) = browser s"
  by (simp_all add: finallyBlock_def ext_def ret_def split: option.splits)

lemma handler_preserves:
  assumes o: "openBrowser w req init = (r0, s0)" and P: "P s0"
    and cred: "preserves P (fillCredentials w req)"
    and prof: "preserves P (fillProfile w req)"
    and subm: "preserves P (submitForm w)"
    and clas: "preserves P (classifyOutcome w)"
    and cat: "\<And>e. preserves P (catchBlock w e)"
    and fin: "preserves P (finallyBlock w)"
  shows "P (state (api_create w req))"
proof -
  let ?rest = "andThen (fillCredentials w req) (andThen (fillProfile w req)
                 (andThen (submitForm w) (classifyOutcome w)))"
  have rest: "preserves P ?rest"
    by (intro preserves_andThen cred prof subm clas)
  obtain r1 s1 where t: "tryBlock w req init = (r1, s1)"
    by (cases "tryBlock w req init")
  have "s1 = s0 \<or> s1 = snd (?rest s0)"
    using t o by (auto simp: tryBlock_def andThen_def thenDo_def split: sum.splits)
  with P rest have P1: "P s1"
    by (auto simp: preserves_def)
  obtain r2 s2 where c: "(case r1 of Inl e \<Rightarrow> catchBlock w e s1 | Inr u \<Rightarrow> (Inr u, s1)) = (r2, s2)"
    by (cases "case r1 of Inl e \<Rightarrow> catchBlock w e s1 | Inr u \<Rightarrow> (Inr u, s1)")
  have P2: "P s2"
    using c P1 cat by (cases r1) (auto dest: preservesD)
  obtain r3 s3 where f: "finallyBlock w s2 = (r3, s3)"
    by (cases "finallyBlock w s2")
  have "P s3"
    using preservesD[OF fin P2 f] .
  moreover have "state (api_create w req) = s3"
    using t c f by (simp add: api_create_def)
  ultimately show ?thesis by simp
qed

lemma frame_after_open:
  assumes o: "openBrowser w req init = (r0, s0)" and S: "S \<subseteq> {Launch, NewPage, Authenticate}"
  shows "browser (state (api_create w req)) = browser s0 \<and>
         watch S (state (api_create w req)) = watch S s0"
proof (rule handler_preserves[OF o])
  show "browser s0 = browser s0 \<and> watch S s0 = watch S s0" by simp
qed (rule keep_cred keep_profile keep_submit keep_classify keep_catch keep_finally, use S in auto)+

subsection \<open>The proxy and the launch\<close>

lemma open_bad:
  assumes "truthy (proxy req)" and "\<And>p. proxy req \<noteq> Some (JStr p)"
  shows "openBrowser w req s =
     (Inl (Error ''proxy.split is not a function''),
      addLog w (''Initiating Browser for: '' @ email req) ''info'' s)"
  using assms
  by (cases "proxy req") (auto simp: openBrowser_def launchArgs_def proxy_split_def
        thenDo_def andThen_def modify_def throw_def split: json.splits)

lemma open_good:
  assumes str: "truthy (proxy req) \<Longrightarrow> \<exists>p. proxy req = Some (JStr p)"
    and run: "openBrowser w req s = (r, s')"
  shows "calls s' = calls s @
     (Launch, defaultArgs @ (if 2 \<le> length (proxyParts (proxy req))
        then [''--proxy-server='' @ proxyParts (proxy req) ! 0 @ '':'' @ proxyParts (proxy req) ! 1]
        else []))
     # (if throws w Launch = None
        then (NewPage, []) #
          (if throws w NewPage = None \<and> length (proxyParts (proxy req)) = 4
           then [(Authenticate, [proxyParts (proxy req) ! 2, proxyParts (proxy req) ! 3])] else [])
        else [])
     \<and> browser s' = (browser s \<or> throws w Launch = None)"
proof (cases "truthy (proxy req)")
  case True
  with str obtain p where p: "proxy req = Some (JStr p)" "p \<noteq> []" by auto
  show ?thesis using run p
    by (auto simp: openBrowser_def launchArgs_def proxyAuth_def proxy_split_def proxyParts_def
      run_defs split: option.splits if_splits)
next
  case False
  then have "proxyParts (proxy req) = []"
    by (cases "proxy req" rule: truthy.cases) (auto simp: proxyParts_def)
  then show ?thesis using run False
    by (auto simp: openBrowser_def launchArgs_def proxyAuth_def 
      run_defs split: option.splits if_splits)
qed

lemma early_calls:
  assumes str: "truthy (proxy req) \<Longrightarrow> \<exists>p. proxy req = Some (JStr p)"
  shows "filter (\<lambda>c. fst c = Launch \<or> fst c = Authenticate) (calls (state (api_create w req))) =
     (Launch, defaultArgs @ (if 2 \<le> length (proxyParts (proxy req))
        then [''--proxy-server='' @ proxyParts (proxy req) ! 0 @ '':'' @ proxyParts (proxy req) ! 1]
        else []))
     # (if throws w Launch = None \<and> throws w NewPage = None \<and> length (proxyParts (proxy req)) = 4
        then [(Authenticate, [proxyParts (proxy req) ! 2, proxyParts (proxy req) ! 3])] else [])"
    and "browser (state (api_create w req)) = (throws w Launch = None)"
proof -
  obtain r0 s0 where o: "openBrowser w req init = (r0, s0)"
    by (cases "openBrowser w req init")
  note g = open_good[OF str o]
  note f = frame_after_open[OF o, of "{Launch, Authenticate}"]
  show "filter (\<lambda>c. fst c = Launch \<or> fst c = Authenticate) (calls (state (api_create w req))) =
     (Launch, defaultArgs @ (if 2 \<le> length (proxyParts (proxy req))
        then [''--proxy-server='' @ proxyParts (proxy req) ! 0 @ '':'' @ proxyParts (proxy req) ! 1]
        else []))
     # (if throws w Launch = None \<and> throws w NewPage = None \<and> length (proxyParts (proxy req)) = 4
        then [(Authenticate, [proxyParts (proxy req) ! 2, proxyParts (proxy req) ! 3])] else [])"
    using f g by (simp add: watch_def init_def)
  show "browser (state (api_create w req)) = (throws w Launch = None)"
    using f g by (simp add: init_def)
qed

lemma early_calls_bad:
  assumes "truthy (proxy req)" and "\<And>p. proxy req \<noteq> Some (JStr p)"
  shows "filter (\<lambda>c. fst c = Launch \<or> fst c = Authenticate) (calls (state (api_create w req))) = []"
    and "\<not> browser (state (api_create w req))"
  using frame_after_open[OF open_bad[OF assms, of w init], of "{Launch, Authenticate}"]
  by (simp_all add: watch_def init_def addLog_def)

lemma split_no_sep: "c \<notin> set s \<Longrightarrow> split c s = [s]"
  by (induction s) auto

lemma split_sep: "c \<notin> set h \<Longrightarrow> split c (h @ c # t) = h # split c t"
  by (induction h) auto

lemma filter_launch_early:
  "filter (\<lambda>c. fst c = Launch) xs =
   filter (\<lambda>c. fst c = Launch) (filter (\<lambda>c. fst c = Launch \<or> fst c = Authenticate) xs)"
  by (induction xs) auto

subsection \<open>Where a response comes from\<close>

lemma classify_returns:
  assumes "classifyOutcome w s = (Inr (), s')"
  shows "sent s' = Some \<lparr>statusCode = 200, body = \<lparr>
       success = (includes_str (currentUrl w) ''download''
          \<or> includes_str (currentUrl w) ''overview'' \<or> includes_str (currentUrl w) ''account''),
       logs = log s',
       error =
        (if includes_str (currentUrl w) ''download''
          \<or> includes_str (currentUrl w) ''overview'' \<or> includes_str (currentUrl w) ''account''
         then None
         else Some (if \<exists>u\<in>set (frameUrls w). includes_str u ''arkoselabs''
              then ''Captcha Challenge. You need a residential proxy or manual intervention.''
              else (case errorEl w of Some t \<Rightarrow> t | None \<Rightarrow> ''Unknown Error'')))\<rparr>\<rparr>"
  using assms
  by (auto simp: classifyOutcome_def run_defs find_None_iff find_Some_iff
           split: option.splits if_splits)

lemma finally_keeps:
  "finallyBlock w s = (r, s') \<Longrightarrow> sent s' = sent s \<and> log s' = log s \<and> browser s' = browser s"
  by (auto simp: finallyBlock_def run_defs split: option.splits if_splits)

lemma proxyParts_str: "p \<noteq> [] \<Longrightarrow> proxyParts (Some (JStr p)) = split CHR '':'' p"
  by (simp add: proxyParts_def)

lemma proxyParts_falsy: "\<not> truthy p \<Longrightarrow> proxyParts p = []"
  by (cases p rule: truthy.cases) (auto simp: proxyParts_def)

lemma proxyParts_cases:
  obtains (str) p where "proxy req = Some (JStr p)" "p \<noteq> []" "proxyParts (proxy req) = split CHR '':'' p"
  | (falsy) "\<not> truthy (proxy req)" "proxyParts (proxy req) = []"
  | (bad) "truthy (proxy req)" "\<And>p. proxy req \<noteq> Some (JStr p)"
  by (cases "proxy req" rule: truthy.cases) (auto simp: proxyParts_def)

lemma unsent_open: "preserves (\<lambda>s. sent s = v) (openBrowser w req)"
  unfolding openBrowser_def launchArgs_def proxyAuth_def
  by (intro preserves_intros; simp add: addLog_def)

lemma unsent_cred: "preserves (\<lambda>s. sent s = v) (fillCredentials w req)"
  unfolding fillCredentials_def
  by (intro preserves_intros; simp add: addLog_def)

lemma unsent_profile: "preserves (\<lambda>s. sent s = v) (fillProfile w req)"
  unfolding fillProfile_def
  by (intro preserves_intros; simp add: addLog_def)

lemma unsent_submit: "preserves (\<lambda>s. sent s = v) (submitForm w)"
  unfolding submitForm_def
  by (intro preserves_intros; simp add: addLog_def)

lemma classify_throws:
  "classifyOutcome w s = (Inl e, s') \<Longrightarrow> sent s' = sent s"
  by (auto simp: classifyOutcome_def run_defs split: option.splits if_splits)

lemma preserves_eqD:
  assumes p: "\<And>v. preserves (\<lambda>s. f s = v) m" and run: "m s = (r, s')"
  shows "f s' = f s"
  using preservesD[OF p[of "f s"] _ run] by simp

lemma phase_sent:
  "openBrowser w req s = (r, s') \<Longrightarrow> sent s' = sent s"
  "fillCredentials w req s = (r, s') \<Longrightarrow> sent s' = sent s"
  "fillProfile w req s = (r, s') \<Longrightarrow> sent s' = sent s"
  "submitForm w s = (r, s') \<Longrightarrow> sent s' = sent s"
  by (erule preserves_eqD[rotated], rule unsent_open unsent_cred unsent_profile unsent_submit)+

lemma tryBlock_throws_unsent:
  assumes "tryBlock w req s = (Inl e, s')"
  shows "sent s' = sent s"
  using assms unfolding tryBlock_def andThen_Inl
  by (auto dest!: phase_sent classify_throws)

lemma tryBlock_returns:
  assumes "tryBlock w req s = (Inr (), s')"
  shows "\<exists>s0. classifyOutcome w s0 = (Inr (), s')"
  using assms by (auto simp: tryBlock_def andThen_Inr)

lemma catch_result:
  assumes "catchBlock w e s = (r, s')"
  shows "(r = Inr () \<and> sent s' = Some \<lparr>statusCode = 500,
            body = \<lparr>success = False, logs = log s', error = Some (error_message e)\<rparr>\<rparr>
          \<and> (browser s \<longrightarrow> throws w CloseInCatch = None))
       \<or> (\<exists>e2. r = Inl e2 \<and> sent s' = sent s \<and> browser s \<and> throws w CloseInCatch = Some e2)"
  using assms
  by (auto simp: catchBlock_def run_defs split: option.splits if_splits)

lemma response_origin:
  assumes "sent (state (api_create w req)) = Some r"
  shows "(caught (api_create w req) = None \<and>
          r = \<lparr>statusCode = 200, body = \<lparr>
            success = (includes_str (currentUrl w) ''download''
              \<or> includes_str (currentUrl w) ''overview'' \<or> includes_str (currentUrl w) ''account''),
            logs = log (state (api_create w req)),
            error =
             (if includes_str (currentUrl w) ''download''
               \<or> includes_str (currentUrl w) ''overview'' \<or> includes_str (currentUrl w) ''account''
              then None
              else Some (if \<exists>u\<in>set (frameUrls w). includes_str u ''arkoselabs''
                then ''Captcha Challenge. You need a residential proxy or manual intervention.''
                else (case errorEl w of Some t \<Rightarrow> t | None \<Rightarrow> ''Unknown Error'')))\<rparr>\<rparr>)
       \<or> (\<exists>e. caught (api_create w req) = Some e \<and>
          r = \<lparr>statusCode = 500, body = \<lparr>success = False,
                logs = log (state (api_create w req)), error = Some (error_message e)\<rparr>\<rparr>)"
proof -
  obtain r1 s1 where t: "tryBlock w req init = (r1, s1)"
    by (cases "tryBlock w req init")
  show ?thesis
  proof (cases r1)
    case (Inr u)
    obtain r3 s3 where f: "finallyBlock w s1 = (r3, s3)"
      by (cases "finallyBlock w s1")
    have out: "state (api_create w req) = s3" "caught (api_create w req) = None"
      using t Inr f by (simp_all add: api_create_def)
    from t Inr have "tryBlock w req init = (Inr (), s1)"
      by simp
    from tryBlock_returns[OF this] obtain s0 where c: "classifyOutcome w s0 = (Inr (), s1)"
      by blast
    show ?thesis
      using assms classify_returns[OF c] finally_keeps[OF f] unfolding out by simp
  next
    case (Inl e)
    obtain r2 s2 where c: "catchBlock w e s1 = (r2, s2)"
      by (cases "catchBlock w e s1")
    obtain r3 s3 where f: "finallyBlock w s2 = (r3, s3)"
      by (cases "finallyBlock w s2")
    have out: "state (api_create w req) = s3" "caught (api_create w req) = Some e"
      using t Inl c f by (simp_all add: api_create_def)
    have "sent s1 = None"
      using tryBlock_throws_unsent[of w req init e s1] t Inl by (simp add: init_def)
    then show ?thesis
      using assms catch_result[OF c] finally_keeps[OF f] unfolding out by auto
  qed
qed

lemma status_of_responses:
  assumes "sent (state (api_create w req)) = Some r"
  shows "(statusCode r = 500 \<and> caught (api_create w req) \<noteq> None)
       \<or> (statusCode r = 200 \<and> caught (api_create w req) = None)"
  using response_origin[OF assms] by auto

subsection \<open>Time stamps\<close>

lemma stamped_simps:
  "stamped w (s\<lparr>calls := c\<rparr>) = stamped w s"
  "stamped w (s\<lparr>sent := r\<rparr>) = stamped w s"
  "stamped w (s\<lparr>browser := b\<rparr>) = stamped w s"
  "stamped w s \<Longrightarrow> stamped w (addLog w m t s)"
  by (simp_all add: stamped_def addLog_def)

lemma stamped_open: "preserves (stamped w) (openBrowser w req)"
  unfolding openBrowser_def launchArgs_def proxyAuth_def
  by (intro preserves_intros; simp add: stamped_simps)

lemma stamped_cred: "preserves (stamped w) (fillCredentials w req)"
  unfolding fillCredentials_def
  by (intro preserves_intros; simp add: stamped_simps)

lemma stamped_profile: "preserves (stamped w) (fillProfile w req)"
  unfolding fillProfile_def
  by (intro preserves_intros; simp add: stamped_simps)

lemma stamped_submit: "preserves (stamped w) (submitForm w)"
  unfolding submitForm_def
  by (intro preserves_intros; simp add: stamped_simps)

lemma stamped_classify: "preserves (stamped w) (classifyOutcome w)"
  unfolding classifyOutcome_def
  by (intro preserves_intros; simp add: stamped_simps)

lemma stamped_catch: "preserves (stamped w) (catchBlock w e)"
  unfolding catchBlock_def
  by (intro preserves_intros preserves_if_state; simp add: stamped_simps)

lemma stamped_finally: "preserves (stamped w) (finallyBlock w)"
  unfolding finallyBlock_def[abs_def]
  by (intro preserves_intros preserves_if_state; simp add: stamped_simps)

lemma stamped_final: "stamped w (state (api_create w req))"
proof -
  obtain r0 s0 where o: "openBrowser w req init = (r0, s0)"
    by (cases "openBrowser w req init")
  have "stamped w init"
    by (simp add: stamped_def init_def)
  then have "stamped w s0"
    using preservesD[OF stamped_open _ o] by simp
  then show ?thesis
    by (rule handler_preserves[OF o])
       (rule stamped_cred stamped_profile stamped_submit stamped_classify stamped_catch
          stamped_finally)+
qed

subsection \<open>The exception that is caught\<close>

lemma clean_blamed: "clean w s \<Longrightarrow> blamed w e s"
  by (auto simp: clean_def blamed_def)

lemma attributes_ret: "attributes w (ret x)"
  by (simp add: attributes_def ret_def)

lemma attributes_throw: "attributes w (throw e)"
  by (simp add: attributes_def throw_def clean_blamed)

lemma attributes_sleep: "attributes w (sleep n)"
  by (simp add: attributes_def sleep_def ret_def)

lemma attributesD:
  "attributes w m \<Longrightarrow> clean w s \<Longrightarrow> m s = (r, s') \<Longrightarrow>
   (case r of Inl e \<Rightarrow> blamed w e s' | Inr x \<Rightarrow> clean w s')"
  by (auto simp: attributes_def split: sum.splits)

lemma attributes_thenDo:
  assumes m: "attributes w m" and k: "\<And>x. attributes w (k x)"
  shows "attributes w (thenDo m k)"
  unfolding attributes_def
proof (intro allI impI)
  fix s
  assume c: "clean w s"
  obtain r s1 where run: "m s = (r, s1)"
    by (cases "m s")
  show "case thenDo m k s of (Inl e, s') \<Rightarrow> blamed w e s' | (Inr x, s') \<Rightarrow> clean w s'"
  proof (cases r)
    case (Inl e)
    then show ?thesis
      using attributesD[OF m c run] run by (simp add: thenDo_def)
  next
    case (Inr x)
    then have c1: "clean w s1"
      using attributesD[OF m c run] by simp
    obtain r2 s2 where run2: "k x s1 = (r2, s2)"
      by (cases "k x s1")
    show ?thesis
      using attributesD[OF k c1 run2] run Inr run2
      by (simp add: thenDo_def split: sum.splits)
  qed
qed

lemma attributes_andThen:
  "attributes w m \<Longrightarrow> attributes w k \<Longrightarrow> attributes w (andThen m k)"
  by (simp add: andThen_def attributes_thenDo)

lemma attributes_modify:
  "(\<And>s. calls (f s) = calls s) \<Longrightarrow> attributes w (modify f)"
  by (simp add: attributes_def modify_def clean_def)

lemma attributes_ext: "attributes w (ext w c args)"
  by (auto simp: attributes_def ext_def clean_def blamed_def split: option.splits)

lemma attributes_extv: "attributes w (extv w c args v)"
  by (simp add: extv_def attributes_thenDo attributes_ext attributes_ret)

lemma attributes_res_json: "attributes w (res_json code ok err)"
  by (simp add: attributes_def res_json_def clean_def)

lemma attributes_if:
  "(c \<Longrightarrow> attributes w a) \<Longrightarrow> (\<not> c \<Longrightarrow> attributes w b) \<Longrightarrow> attributes w (if c then a else b)"
  by simp

lemma attributes_case_option:
  "attributes w a \<Longrightarrow> (\<And>x. attributes w (b x)) \<Longrightarrow>
   attributes w (case v of None \<Rightarrow> a | Some x \<Rightarrow> b x)"
  by (cases v) simp_all

lemma attributes_proxy_split: "attributes w (proxy_split p)"
  by (simp add: proxy_split_def attributes_ret attributes_throw split: option.splits json.splits)

lemma attributes_fillProfile: "attributes w (fillProfile w req)"
  by (auto simp: attributes_def fillProfile_def run_defs clean_def guarded_def
        split: option.splits)

lemmas attributes_intros = attributes_proxy_split attributes_fillProfile
  attributes_ret attributes_throw attributes_sleep attributes_thenDo attributes_andThen
  attributes_modify attributes_ext attributes_extv attributes_res_json attributes_if
  attributes_case_option

lemma attributes_tryBlock: "attributes w (tryBlock w req)"
  unfolding tryBlock_def openBrowser_def launchArgs_def proxyAuth_def fillCredentials_def
    submitForm_def classifyOutcome_def
  by (intro attributes_intros; simp add: addLog_def)

lemma blamed_catch: "preserves (blamed w e) (catchBlock w e')"
  unfolding catchBlock_def
  by (intro preserves_intros preserves_if_state; simp add: addLog_def blamed_def guarded_def)

lemma blamed_finally: "preserves (blamed w e) (finallyBlock w)"
  unfolding finallyBlock_def[abs_def]
  by (intro preserves_intros preserves_if_state; simp add: blamed_def guarded_def)

lemma clean_finally: "preserves (clean w) (finallyBlock w)"
  unfolding finallyBlock_def[abs_def]
  by (intro preserves_intros preserves_if_state; simp add: clean_def guarded_def)

lemma blame_the_caught:
  "case caught (api_create w req) of
     None \<Rightarrow> clean w (state (api_create w req))
   | Some e \<Rightarrow> blamed w e (state (api_create w req))"
proof -
  obtain r1 s1 where t: "tryBlock w req init = (r1, s1)"
    by (cases "tryBlock w req init")
  have "clean w init"
    by (simp add: clean_def init_def)
  then have a: "case r1 of Inl e \<Rightarrow> blamed w e s1 | Inr x \<Rightarrow> clean w s1"
    using attributesD[OF attributes_tryBlock _ t] by simp
  show ?thesis
  proof (cases r1)
    case (Inr u)
    obtain r3 s3 where f: "finallyBlock w s1 = (r3, s3)"
      by (cases "finallyBlock w s1")
    have out: "state (api_create w req) = s3" "caught (api_create w req) = None"
      using t Inr f by (simp_all add: api_create_def)
    show ?thesis
      using a Inr preservesD[OF clean_finally _ f] unfolding out by simp
  next
    case (Inl e)
    obtain r2 s2 where c: "catchBlock w e s1 = (r2, s2)"
      by (cases "catchBlock w e s1")
    obtain r3 s3 where f: "finallyBlock w s2 = (r3, s3)"
      by (cases "finallyBlock w s2")
    have out: "state (api_create w req) = s3" "caught (api_create w req) = Some e"
      using t Inl c f by (simp_all add: api_create_def)
    have "blamed w e s2"
      using a Inl preservesD[OF blamed_catch _ c] by simp
    then show ?thesis
      using preservesD[OF blamed_finally _ f] unfolding out by simp
  qed
qed

lemma api_create_cases:
  obtains (returned) s1 r3 s3 where
      "tryBlock w req init = (Inr (), s1)" "finallyBlock w s1 = (r3, s3)"
      "state (api_create w req) = s3" "caught (api_create w req) = None"
  | (threw) e s1 r2 s2 r3 s3 where
      "tryBlock w req init = (Inl e, s1)" "catchBlock w e s1 = (r2, s2)"
      "finallyBlock w s2 = (r3, s3)"
      "state (api_create w req) = s3" "caught (api_create w req) = Some e"
proof -
  obtain r1 s1 where t: "tryBlock w req init = (r1, s1)"
    by (cases "tryBlock w req init")
  show thesis
  proof (cases r1)
    case (Inr u)
    obtain r3 s3 where f: "finallyBlock w s1 = (r3, s3)"
      by (cases "finallyBlock w s1")
    show thesis
      using t Inr f by (intro returned[of s1 r3 s3]) (simp_all add: api_create_def)
  next
    case (Inl e)
    obtain r2 s2 where c: "catchBlock w e s1 = (r2, s2)"
      by (cases "catchBlock w e s1")
    obtain r3 s3 where f: "finallyBlock w s2 = (r3, s3)"
      by (cases "finallyBlock w s2")
    show thesis
      using t Inl c f by (intro threw[of e s1 r2 s2 r3 s3]) (simp_all add: api_create_def)
  qed
qed

lemma caught_type_error:
  assumes "truthy (proxy req)" and "\<And>p. proxy req \<noteq> Some (JStr p)"
  shows "caught (api_create w req) = Some (Error ''proxy.split is not a function'')"
  by (simp add: api_create_def tryBlock_def andThen_def thenDo_def open_bad[OF assms]
        split: prod.splits)

lemma caught_is_reported:
  assumes c: "caught (api_create w req) = Some e" and ok: "throws w CloseInCatch = None"
  shows "sent (state (api_create w req)) = Some \<lparr>statusCode = 500,
           body = \<lparr>success = False, logs = log (state (api_create w req)),
                   error = Some (error_message e)\<rparr>\<rparr>"
proof (cases w req rule: api_create_cases)
  case (returned s1 r3 s3)
  then show ?thesis using c by simp
next
  case (threw e' s1 r2 s2 r3 s3)
  then have "e' = e" using c by simp
  then show ?thesis
    using catch_result[OF threw(2)] finally_keeps[OF threw(3)] ok threw(4) by auto
qed

subsection \<open>Two runs that differ in the profile inputs\<close>

lemma api_create_settle:
  "api_create w req = settle w (fst (tryBlock w req init)) (snd (tryBlock w req init))"
  by (cases "tryBlock w req init") (simp add: api_create_def settle_def)

lemma parallelD:
  "parallel m \<Longrightarrow> similar s t \<Longrightarrow> fst (m s) = fst (m t) \<and> similar (snd (m s)) (snd (m t))"
  by (simp add: parallel_def)

lemma parallel_ret: "parallel (ret x)"
  by (simp add: parallel_def ret_def)

lemma parallel_sleep: "parallel (sleep n)"
  by (simp add: parallel_def sleep_def ret_def)

lemma parallel_thenDo:
  assumes m: "parallel m" and k: "\<And>x. parallel (k x)"
  shows "parallel (thenDo m k)"
  unfolding parallel_def
proof (intro allI impI)
  fix s t
  assume st: "similar s t"
  obtain r s1 where ms: "m s = (r, s1)" by (cases "m s")
  obtain r' t1 where mt: "m t = (r', t1)" by (cases "m t")
  from parallelD[OF m st] ms mt have eq: "r' = r" and sim: "similar s1 t1"
    by simp_all
  show "fst (thenDo m k s) = fst (thenDo m k t) \<and> similar (snd (thenDo m k s)) (snd (thenDo m k t))"
  proof (cases r)
    case (Inl e)
    then show ?thesis using ms mt eq sim by (simp add: thenDo_def)
  next
    case (Inr x)
    then show ?thesis using ms mt eq parallelD[OF k[of x] sim] by (simp add: thenDo_def)
  qed
qed

lemma parallel_andThen: "parallel m \<Longrightarrow> parallel k \<Longrightarrow> parallel (andThen m k)"
  by (simp add: andThen_def parallel_thenDo)

lemma parallel_addLog: "ty \<noteq> ''warning'' \<Longrightarrow> parallel (modify (addLog w msg ty))"
  by (simp add: parallel_def modify_def addLog_def similar_def plain_def)

lemma parallel_ext: "parallel (ext w c args)"
  by (simp add: parallel_def ext_def similar_def split: option.splits)

lemma parallel_extv: "parallel (extv w c args v)"
  by (simp add: extv_def parallel_thenDo parallel_ext parallel_ret)

lemma parallel_res_json: "parallel (res_json code ok err)"
  by (simp add: parallel_def res_json_def similar_def verdict_def)

lemma parallel_if: "(c \<Longrightarrow> parallel a) \<Longrightarrow> (\<not> c \<Longrightarrow> parallel b) \<Longrightarrow> parallel (if c then a else b)"
  by simp

lemma parallel_case_option:
  "parallel a \<Longrightarrow> (\<And>x. parallel (b x)) \<Longrightarrow> parallel (case v of None \<Rightarrow> a | Some x \<Rightarrow> b x)"
  by (cases v) simp_all

lemma parallel_if_browser:
  "parallel a \<Longrightarrow> parallel b \<Longrightarrow> parallel (\<lambda>s. if browser s then a s else b s)"
  by (auto simp: parallel_def similar_def)

lemmas parallel_intros = parallel_ret parallel_sleep parallel_thenDo parallel_andThen
  parallel_addLog parallel_ext parallel_extv parallel_res_json parallel_if parallel_case_option

lemma parallel_submit: "parallel (submitForm w)"
  unfolding submitForm_def by (intro parallel_intros; simp)

lemma parallel_classify: "parallel (classifyOutcome w)"
  unfolding classifyOutcome_def by (intro parallel_intros; simp)

lemma parallel_catch: "parallel (catchBlock w e)"
  unfolding catchBlock_def by (intro parallel_intros parallel_if_browser; simp)

lemma parallel_finally: "parallel (finallyBlock w)"
  unfolding finallyBlock_def[abs_def] by (intro parallel_intros parallel_if_browser; simp)

lemma settle_similar:
  assumes st: "similar s t"
  shows "caught (settle w r s) = caught (settle w r t)
     \<and> escaped (settle w r s) = escaped (settle w r t)
     \<and> similar (state (settle w r s)) (state (settle w r t))"
proof -
  let ?c = "\<lambda>s. case r of Inl e \<Rightarrow> catchBlock w e s | Inr u \<Rightarrow> (Inr u, s)"
  have c: "fst (?c s) = fst (?c t) \<and> similar (snd (?c s)) (snd (?c t))"
    using st parallelD[OF parallel_catch[of w] st] by (cases r) simp_all
  obtain r2 s2 where cs: "?c s = (r2, s2)" by (cases "?c s")
  obtain r2' t2 where ct: "?c t = (r2', t2)" by (cases "?c t")
  from c cs ct have r2: "r2' = r2" and sim2: "similar s2 t2" by simp_all
  obtain r3 s3 where fs: "finallyBlock w s2 = (r3, s3)" by (cases "finallyBlock w s2")
  obtain r3' t3 where ft: "finallyBlock w t2 = (r3', t3)" by (cases "finallyBlock w t2")
  from parallelD[OF parallel_finally[of w] sim2] fs ft have r3: "r3' = r3" and sim3: "similar s3 t3"
    by simp_all
  show ?thesis
    using cs ct fs ft r2 r3 sim3 by (simp add: settle_def)
qed

lemma fixed_fields:
  "nextBtn (profileFixed w) = nextBtn w"
  "currentUrl (profileFixed w) = currentUrl w"
  "errorEl (profileFixed w) = errorEl w"
  "frameUrls (profileFixed w) = frameUrls w"
  "clock (profileFixed w) = clock w"
  by (simp_all add: profileFixed_def)

lemma ext_fixed:
  "c \<notin> {TypeYear, SelectMonth, TypeDay} \<Longrightarrow> ext (profileFixed w) c a = ext w c a"
  by (rule ext) (simp add: ext_def profileFixed_def)

lemma addLog_fixed: "addLog (profileFixed w) = addLog w"
  by (intro ext) (simp add: addLog_def fixed_fields)

lemma phases_fixed:
  "openBrowser (profileFixed w) req = openBrowser w req"
  "fillCredentials (profileFixed w) req = fillCredentials w req"
  "submitForm (profileFixed w) = submitForm w"
  "classifyOutcome (profileFixed w) = classifyOutcome w"
  "catchBlock (profileFixed w) e = catchBlock w e"
  "finallyBlock (profileFixed w) = finallyBlock w"
  by (simp_all add: openBrowser_def proxyAuth_def fillCredentials_def submitForm_def
        classifyOutcome_def catchBlock_def finallyBlock_def[abs_def] extv_def ext_fixed
        addLog_fixed fixed_fields cong: if_cong option.case_cong)

lemma settle_fixed: "settle (profileFixed w) = settle w"
  by (intro ext) (simp add: settle_def phases_fixed cong: sum.case_cong)

lemma tryBlock_unfold:
  "tryBlock w req s =
     (case openBrowser w req s of
        (Inl e, s') \<Rightarrow> (Inl e, s')
      | (Inr u, s1) \<Rightarrow>
          (case fillCredentials w req s1 of
             (Inl e, s') \<Rightarrow> (Inl e, s')
           | (Inr u, s2) \<Rightarrow>
               (case fillProfile w req s2 of
                  (Inl e, s') \<Rightarrow> (Inl e, s')
                | (Inr u, s3) \<Rightarrow> andThen (submitForm w) (classifyOutcome w) s3)))"
  by (simp add: tryBlock_def andThen_def thenDo_def split: prod.splits sum.splits)

lemma profile_absorbs:
  assumes fails: "throws w TypeYear \<noteq> None \<or> throws w SelectMonth \<noteq> None
                  \<or> throws w TypeDay \<noteq> None"
    and nw: "nowarn s"
  shows "fst (fillProfile w req s) = Inr ()"
    and "fst (fillProfile (profileFixed w) req s) = Inr ()"
    and "similar (snd (fillProfile w req s)) (snd (fillProfile (profileFixed w) req s))"
    and "log (snd (fillProfile w req s)) = log s @
          [\<lparr>message = ''Filling Profile details...'', type = ''info'',
             timestamp = clock w (length (log s))\<rparr>,
           \<lparr>message = ''Profile inputs varying, attempting fallbacks...'', type = ''warning'',
             timestamp = clock w (Suc (length (log s)))\<rparr>]"
proof -
  have keep: "filter (\<lambda>p. snd p \<noteq> ''warning'') (map plain (log s)) = map plain (log s)"
    using nw by (auto simp: nowarn_def plain_def filter_id_conv)
  show "fst (fillProfile w req s) = Inr ()"
    by (auto simp: fillProfile_def run_defs split: option.splits)
  show "fst (fillProfile (profileFixed w) req s) = Inr ()"
    by (auto simp: fillProfile_def run_defs split: option.splits)
  show "log (snd (fillProfile w req s)) = log s @
          [\<lparr>message = ''Filling Profile details...'', type = ''info'',
             timestamp = clock w (length (log s))\<rparr>,
           \<lparr>message = ''Profile inputs varying, attempting fallbacks...'', type = ''warning'',
             timestamp = clock w (Suc (length (log s)))\<rparr>]"
    using fails by (auto simp: fillProfile_def run_defs split: option.splits)
  show "similar (snd (fillProfile w req s)) (snd (fillProfile (profileFixed w) req s))"
    using fails keep
    by (auto simp: fillProfile_def run_defs similar_def plain_def profileFixed_def
          split: option.splits)
qed

lemma nowarn_open: "preserves nowarn (openBrowser w req)"
  unfolding openBrowser_def launchArgs_def proxyAuth_def
  by (intro preserves_intros; simp add: addLog_def nowarn_def)

lemma nowarn_cred: "preserves nowarn (fillCredentials w req)"
  unfolding fillCredentials_def
  by (intro preserves_intros; simp add: addLog_def nowarn_def)

lemma settle_preserves:
  assumes "\<And>e. preserves P (catchBlock w e)" and "preserves P (finallyBlock w)" and "P s"
  shows "P (state (settle w r s))"
proof -
  obtain r2 s2 where c: "(case r of Inl e \<Rightarrow> catchBlock w e s | Inr u \<Rightarrow> (Inr u, s)) = (r2, s2)"
    by (cases "case r of Inl e \<Rightarrow> catchBlock w e s | Inr u \<Rightarrow> (Inr u, s)")
  have "P s2"
    using c assms(1,3) by (cases r) (auto dest: preservesD)
  moreover obtain r3 s3 where f: "finallyBlock w s2 = (r3, s3)"
    by (cases "finallyBlock w s2")
  ultimately have "P s3"
    using preservesD[OF assms(2) _ f] by simp
  then show ?thesis
    using c f by (simp add: settle_def)
qed

lemma logged_submit: "preserves (\<lambda>s. e \<in> set (log s)) (submitForm w)"
  unfolding submitForm_def
  by (intro preserves_intros; simp add: addLog_def)

lemma logged_classify: "preserves (\<lambda>s. e \<in> set (log s)) (classifyOutcome w)"
  unfolding classifyOutcome_def
  by (intro preserves_intros; simp add: addLog_def)

lemma logged_catch: "preserves (\<lambda>s. e \<in> set (log s)) (catchBlock w e')"
  unfolding catchBlock_def
  by (intro preserves_intros preserves_if_state; simp add: addLog_def)

lemma logged_finally: "preserves (\<lambda>s. e \<in> set (log s)) (finallyBlock w)"
  unfolding finallyBlock_def[abs_def]
  by (intro preserves_intros preserves_if_state; simp)

lemma called_classify: "preserves (\<lambda>s. c \<in> set (calls s)) (classifyOutcome w)"
  unfolding classifyOutcome_def
  by (intro preserves_intros; simp add: addLog_def)

lemma called_catch: "preserves (\<lambda>s. c \<in> set (calls s)) (catchBlock w e')"
  unfolding catchBlock_def
  by (intro preserves_intros preserves_if_state; simp add: addLog_def)

lemma called_finally: "preserves (\<lambda>s. c \<in> set (calls s)) (finallyBlock w)"
  unfolding finallyBlock_def[abs_def]
  by (intro preserves_intros preserves_if_state; simp)

lemma submit_clicks:
  "(ClickSubmit, [''button[type=\"submit\"]'']) \<in> set (calls (snd (submitForm w s)))"
  by (simp add: submitForm_def run_defs split: option.splits)

lemma watch_year_settle:
  "watch {TypeYear} (state (settle w r s)) = watch {TypeYear} s"
proof -
  have "browser (state (settle w r s)) = browser s
      \<and> watch {TypeYear} (state (settle w r s)) = watch {TypeYear} s"
  proof (rule settle_preserves)
    show "preserves (\<lambda>s'. browser s' = browser s \<and> watch {TypeYear} s' = watch {TypeYear} s)
        (catchBlock w e)" for e
      by (rule keep_catch) simp
    show "preserves (\<lambda>s'. browser s' = browser s \<and> watch {TypeYear} s' = watch {TypeYear} s)
        (finallyBlock w)"
      by (rule keep_finally) simp
    show "browser s = browser s \<and> watch {TypeYear} s = watch {TypeYear} s"
      by simp
  qed
  then show ?thesis by simp
qed

lemma watch_year_early:
  "watch {TypeYear} (snd (openBrowser w req s)) = watch {TypeYear} s"
  "watch {TypeYear} (snd (fillCredentials w req s)) = watch {TypeYear} s"
proof -
  obtain r s' where o: "openBrowser w req s = (r, s')"
    by (cases "openBrowser w req s")
  show "watch {TypeYear} (snd (openBrowser w req s)) = watch {TypeYear} s"
    using preservesD[OF keep_open[of "{TypeYear}" "watch {TypeYear} s" w req] _ o] o by simp
  obtain r2 s2 where c: "fillCredentials w req s = (r2, s2)"
    by (cases "fillCredentials w req s")
  show "watch {TypeYear} (snd (fillCredentials w req s)) = watch {TypeYear} s"
    using preservesD[OF keep_cred[of "{TypeYear}" "browser s" "watch {TypeYear} s" w req] _ c] c
    by simp
qed

section \<open>The claims\<close>

subsection \<open>The status route\<close>

text \<open>
  C7.  \<^verbatim>\<open>GET /api/status\<close> reports static information: whatever the request, and
  whatever was asked before (the route reads no state), the answer is the one object with
  \<^verbatim>\<open>status: 'online'\<close>, \<^verbatim>\<open>mode: 'puppeteer'\<close> and \<^verbatim>\<open>version: '5.0.0'\<close>.
\<close>

theorem status_is_constant:
  "api_status req = \<lparr>status = ''online'', mode = ''puppeteer'', version = ''5.0.0''\<rparr>
   \<and> api_status req = api_status req'"
  by (simp add: api_status_def)

subsection \<open>Classifying the outcome\<close>

text \<open>
  C1.  When no exception reaches the outer \<^verbatim>\<open>catch\<close>, a response is sent and it is read off
  the page after the submission: \<open>success\<close> is true exactly when the URL contains
  \<^verbatim>\<open>download\<close>, \<^verbatim>\<open>overview\<close> or \<^verbatim>\<open>account\<close>; otherwise the error is the CAPTCHA message
  when some frame's URL contains \<^verbatim>\<open>arkoselabs\<close>, and else the text of the first element
  matching the error selector, or \<^verbatim>\<open>Unknown Error\<close> when there is none.
\<close>

theorem create_classifies_outcome:
  assumes "caught (api_create w req) = None"
  shows "\<exists>r. sent (state (api_create w req)) = Some r
     \<and> (success (body r) \<longleftrightarrow>
          includes_str (currentUrl w) ''download'' \<or> includes_str (currentUrl w) ''overview''
          \<or> includes_str (currentUrl w) ''account'')
     \<and> error (body r) =
        (if success (body r) then None
         else Some (if \<exists>u\<in>set (frameUrls w). includes_str u ''arkoselabs''
              then ''Captcha Challenge. You need a residential proxy or manual intervention.''
              else (case errorEl w of Some t \<Rightarrow> t | None \<Rightarrow> ''Unknown Error'')))"
proof -
  obtain r1 s1 where t: "tryBlock w req init = (r1, s1)"
    by (cases "tryBlock w req init")
  obtain r3 s3 where f: "finallyBlock w s1 = (r3, s3)"
    by (cases "finallyBlock w s1")
  from assms t have r1: "r1 = Inr ()"
    by (auto simp: api_create_def split: sum.splits prod.splits)
  from t r1 obtain s0 where c: "classifyOutcome w s0 = (Inr (), s1)"
    by (auto simp: tryBlock_def andThen_Inr)
  have st: "state (api_create w req) = s3"
    using t r1 f by (simp add: api_create_def)
  from classify_returns[OF c] finally_keeps[OF f] show ?thesis
    unfolding st by simp
qed

theorem create_classifies_outcome_witness:
  "caught (api_create calm alice) = None
   \<and> (\<exists>r. sent (state (api_create calm alice)) = Some r \<and> success (body r)
          \<and> error (body r) = None)
   \<and> caught (api_create challenged alice) = None
   \<and> (\<exists>r. sent (state (api_create challenged alice)) = Some r \<and> \<not> success (body r)
          \<and> error (body r) =
              Some ''Captcha Challenge. You need a residential proxy or manual intervention.'')
   \<and> caught (api_create rejected alice) = None
   \<and> (\<exists>r. sent (state (api_create rejected alice)) = Some r \<and> \<not> success (body r)
          \<and> error (body r) = Some ''This address is already in use.'')"
proof -
  have a: "caught (api_create calm alice) = None"
    by (simp add: create_defs run_defs calm_def alice_def)
  have b: "caught (api_create challenged alice) = None"
    by (simp add: create_defs run_defs challenged_def calm_def alice_def)
  have c: "caught (api_create rejected alice) = None"
    by (simp add: create_defs run_defs rejected_def calm_def alice_def)
  have ua: "currentUrl calm = ''https://www.spotify.com/download''"
    by (simp add: calm_def)
  have ub: "currentUrl challenged = ''https://www.spotify.com/signup''"
    "frameUrls challenged =
       [''https://www.spotify.com/signup'', ''https://client-api.arkoselabs.com/fc'']"
    by (simp_all add: challenged_def)
  have uc: "currentUrl rejected = ''https://www.spotify.com/signup''"
    "frameUrls rejected = [''https://www.spotify.com/signup'']"
    "errorEl rejected = Some ''This address is already in use.''"
    by (simp_all add: rejected_def)
  have "\<exists>r. sent (state (api_create calm alice)) = Some r \<and> success (body r)
          \<and> error (body r) = None"
    using create_classifies_outcome[OF a] unfolding ua by auto
  moreover have "\<exists>r. sent (state (api_create challenged alice)) = Some r \<and> \<not> success (body r)
          \<and> error (body r) =
              Some ''Captcha Challenge. You need a residential proxy or manual intervention.''"
    using create_classifies_outcome[OF b] unfolding ub by auto
  moreover have "\<exists>r. sent (state (api_create rejected alice)) = Some r \<and> \<not> success (body r)
          \<and> error (body r) = Some ''This address is already in use.''"
    using create_classifies_outcome[OF c] unfolding uc by auto
  ultimately show ?thesis
    using a b c by blast
qed

subsection \<open>The shape of a response\<close>

text \<open>
  C5.  The body of every response of \<^verbatim>\<open>/api/create\<close> has a boolean \<open>success\<close> and an
  array \<open>logs\<close> (both by the type \<open>create_body\<close>), and it has an \<open>error\<close> string
  exactly when \<open>success\<close> is false.
\<close>

theorem error_exactly_on_failure:
  assumes "sent (state (api_create w req)) = Some r"
  shows "(\<exists>m. error (body r) = Some m) \<longleftrightarrow> \<not> success (body r)"
  using response_origin[OF assms] by auto

theorem error_exactly_on_failure_witness:
  "sent (state (api_create calm alice)) = Some \<lparr>statusCode = 200,
      body = \<lparr>success = True, logs = log (state (api_create calm alice)), error = None\<rparr>\<rparr>
   \<and> sent (state (api_create rejected alice)) = Some \<lparr>statusCode = 200,
      body = \<lparr>success = False, logs = log (state (api_create rejected alice)),
              error = Some ''This address is already in use.''\<rparr>\<rparr>"
proof -
  have a: "sent (state (api_create calm alice)) = Some \<lparr>statusCode = 200,
      body = \<lparr>success = True, logs = log (state (api_create calm alice)), error = None\<rparr>\<rparr>"
    by (simp add: create_defs run_defs calm_def alice_def)
  have b: "sent (state (api_create rejected alice)) = Some \<lparr>statusCode = 200,
      body = \<lparr>success = False, logs = log (state (api_create rejected alice)),
              error = Some ''This address is already in use.''\<rparr>\<rparr>"
    by (simp add: create_defs run_defs rejected_def calm_def alice_def)
  show ?thesis
    using a b error_exactly_on_failure[OF a] error_exactly_on_failure[OF b] by simp
qed

subsection \<open>Status codes\<close>

text \<open>
  Every response that is sent has status 500 when it comes from the outer \<^verbatim>\<open>catch\<close> and
  status 200, with \<open>success\<close> read off the page, otherwise (lemmas \<open>response_origin\<close>
  and \<open>status_of_responses\<close>).  A failure classified from the page is therefore answered
  with status 200 and \<open>success\<close> false.

  C10 says more: that status 500 is used exactly when an exception reaches the outer
  \<^verbatim>\<open>catch\<close>.  The handler aims at that, \<^verbatim>\<open>res.status(500)\<close> being the last statement of
  the \<^verbatim>\<open>catch\<close> block, but the \<^verbatim>\<open>await browser.close()\<close> before it is unprotected.  In
  the world \<open>stuck\<close> the navigation throws, the exception reaches the outer \<^verbatim>\<open>catch\<close>,
  \<^verbatim>\<open>browser.close()\<close> throws there, and the request is never answered: no status is used
  at all and the second exception leaves the handler.
\<close>

theorem no_answer_when_close_fails_in_catch:
  "caught (api_create stuck alice) = Some (Error ''Navigation timeout of 60000 ms exceeded'')
   \<and> sent (state (api_create stuck alice)) = None
   \<and> escaped (api_create stuck alice) = Some (Error ''Unable to kill the browser process'')"
  by (simp add: create_defs run_defs stuck_def calm_def alice_def)

subsection \<open>What the outer \<^verbatim>\<open>catch\<close> reports\<close>

text \<open>
  C2, as amended.  An exception raised in the \<^verbatim>\<open>try\<close> block outside the inner \<^verbatim>\<open>try\<close> of
  the profile inputs reaches the outer \<^verbatim>\<open>catch\<close>: the exception of any library call that
  was made and threw, the three profile inputs apart, and the \<^verbatim>\<open>TypeError\<close> of
  \<^verbatim>\<open>proxy.split\<close> on a truthy proxy that is not a string.  When the \<^verbatim>\<open>browser.close()\<close> of
  the \<^verbatim>\<open>catch\<close> block returns, the caller is answered with status 500, \<open>success\<close> false
  and the message of that exception as \<open>error\<close>, whatever kind of failure it was.
\<close>

theorem outer_catch_reports:
  "((c, a) \<in> set (calls (state (api_create w req)))
      \<and> c \<notin> {TypeYear, SelectMonth, TypeDay, CloseInCatch, CloseInFinally}
      \<and> throws w c = Some e \<longrightarrow> caught (api_create w req) = Some e)
   \<and> (truthy (proxy req) \<and> (\<forall>p. proxy req \<noteq> Some (JStr p)) \<longrightarrow>
        caught (api_create w req) = Some (Error ''proxy.split is not a function''))
   \<and> (caught (api_create w req) = Some e \<and> throws w CloseInCatch = None \<longrightarrow>
        sent (state (api_create w req)) = Some \<lparr>statusCode = 500,
           body = \<lparr>success = False, logs = log (state (api_create w req)),
                   error = Some (error_message e)\<rparr>\<rparr>)"
proof (intro conjI impI)
  assume h: "(c, a) \<in> set (calls (state (api_create w req)))
      \<and> c \<notin> {TypeYear, SelectMonth, TypeDay, CloseInCatch, CloseInFinally}
      \<and> throws w c = Some e"
  then have g: "guarded c"
    by (simp add: guarded_def)
  show "caught (api_create w req) = Some e"
  proof (cases "caught (api_create w req)")
    case None
    then have "clean w (state (api_create w req))"
      using blame_the_caught[of w req] by simp
    then show ?thesis
      using h g by (auto simp: clean_def)
  next
    case (Some e')
    then have "blamed w e' (state (api_create w req))"
      using blame_the_caught[of w req] by simp
    then show ?thesis
      using h g Some by (auto simp: blamed_def)
  qed
next
  assume "truthy (proxy req) \<and> (\<forall>p. proxy req \<noteq> Some (JStr p))"
  then show "caught (api_create w req) = Some (Error ''proxy.split is not a function'')"
    by (intro caught_type_error) simp_all
next
  assume "caught (api_create w req) = Some e \<and> throws w CloseInCatch = None"
  then show "sent (state (api_create w req)) = Some \<lparr>statusCode = 500,
           body = \<lparr>success = False, logs = log (state (api_create w req)),
                   error = Some (error_message e)\<rparr>\<rparr>"
    by (intro caught_is_reported) simp_all
qed

theorem outer_catch_reports_witness:
  "(Goto, [''https://www.spotify.com/signup'']) \<in> set (calls (state (api_create offline alice)))
   \<and> throws offline Goto = Some (Error ''net::ERR_NAME_NOT_RESOLVED'')
   \<and> throws offline CloseInCatch = None
   \<and> caught (api_create offline alice) = Some (Error ''net::ERR_NAME_NOT_RESOLVED'')
   \<and> sent (state (api_create offline alice)) = Some \<lparr>statusCode = 500,
         body = \<lparr>success = False, logs = log (state (api_create offline alice)),
                 error = Some ''net::ERR_NAME_NOT_RESOLVED''\<rparr>\<rparr>
   \<and> truthy (proxy viaNumber) \<and> proxy viaNumber = Some (JNum 8080)
   \<and> caught (api_create calm viaNumber) = Some (Error ''proxy.split is not a function'')"
proof -
  have a: "(Goto, [''https://www.spotify.com/signup''])
      \<in> set (calls (state (api_create offline alice)))"
    by (simp add: create_defs run_defs offline_def calm_def alice_def)
  have b: "throws offline Goto = Some (Error ''net::ERR_NAME_NOT_RESOLVED'')"
    "throws offline CloseInCatch = None"
    by (simp_all add: offline_def)
  have c: "truthy (proxy viaNumber)" "proxy viaNumber = Some (JNum 8080)"
    by (simp_all add: viaNumber_def)
  note t = outer_catch_reports[of Goto "[''https://www.spotify.com/signup'']" offline alice
      "Error ''net::ERR_NAME_NOT_RESOLVED''"]
  have caught: "caught (api_create offline alice) = Some (Error ''net::ERR_NAME_NOT_RESOLVED'')"
    using t a b by simp
  have sent: "sent (state (api_create offline alice)) = Some \<lparr>statusCode = 500,
         body = \<lparr>success = False, logs = log (state (api_create offline alice)),
                 error = Some ''net::ERR_NAME_NOT_RESOLVED''\<rparr>\<rparr>"
    using t caught b by simp
  have ty: "caught (api_create calm viaNumber) = Some (Error ''proxy.split is not a function'')"
    using outer_catch_reports[of _ _ calm viaNumber] c by simp
  show ?thesis
    using a b c caught sent ty by simp
qed

text \<open>
  As first stated, for every failure, a missing selector among them, the claim fails: in
  the world \<open>noYearInput\<close> the call \<^verbatim>\<open>page.type('input#year', ...)\<close> is made and throws,
  no exception reaches the outer \<^verbatim>\<open>catch\<close>, and the caller is told of a success.
\<close>

theorem profile_failure_not_reported:
  "(TypeYear, [''input#year'', ''1990'']) \<in> set (calls (state (api_create noYearInput alice)))
   \<and> throws noYearInput TypeYear = Some (Error ''No element found for selector: input#year'')
   \<and> caught (api_create noYearInput alice) = None
   \<and> escaped (api_create noYearInput alice) = None
   \<and> sent (state (api_create noYearInput alice)) = Some \<lparr>statusCode = 200,
        body = \<lparr>success = True, logs = log (state (api_create noYearInput alice)),
                error = None\<rparr>\<rparr>"
  by (simp add: create_defs run_defs noYearInput_def calm_def alice_def)

subsection \<open>A failure of the profile inputs\<close>

text \<open>
  C8.  An exception thrown while the profile inputs are filled is caught inside the
  handler and changes nothing but the log.  Take a run that reaches the profile inputs, in
  a world where one of the three throws, and the run of the same request in the same world
  with profile inputs that work.  The two runs catch the same exception in the outer
  \<^verbatim>\<open>catch\<close> or none, let the same exception escape or none, and send the same status,
  \<open>success\<close> and \<open>error\<close> or nothing; the log of the first is the log of the second
  (messages and categories) with one record more, the warning
  \<^verbatim>\<open>Profile inputs varying, attempting fallbacks...\<close>; and the first goes on to click
  Submit.
\<close>

theorem profile_failure_is_absorbed:
  assumes fails: "throws w TypeYear \<noteq> None \<or> throws w SelectMonth \<noteq> None
                  \<or> throws w TypeDay \<noteq> None"
    and reached: "(TypeYear, a) \<in> set (calls (state (api_create w req)))"
  shows "caught (api_create w req) = caught (api_create (profileFixed w) req)
     \<and> escaped (api_create w req) = escaped (api_create (profileFixed w) req)
     \<and> map_option verdict (sent (state (api_create w req)))
         = map_option verdict (sent (state (api_create (profileFixed w) req)))
     \<and> filter (\<lambda>p. snd p \<noteq> ''warning'') (map plain (log (state (api_create w req))))
         = map plain (log (state (api_create (profileFixed w) req)))
     \<and> length (log (state (api_create w req)))
         = Suc (length (log (state (api_create (profileFixed w) req))))
     \<and> (\<exists>ts. \<lparr>message = ''Profile inputs varying, attempting fallbacks...'',
               type = ''warning'', timestamp = ts\<rparr> \<in> set (log (state (api_create w req))))
     \<and> (ClickSubmit, [''button[type=\"submit\"]'']) \<in> set (calls (state (api_create w req)))"
proof -
  let ?w' = "profileFixed w"
  let ?post = "andThen (submitForm w) (classifyOutcome w)"
  obtain r0 s0 where o: "openBrowser w req init = (r0, s0)"
    by (cases "openBrowser w req init")
  obtain r1 s1 where c: "fillCredentials w req s0 = (r1, s1)"
    by (cases "fillCredentials w req s0")
  have seen: "watch {TypeYear} (state (api_create w req)) \<noteq> []"
    using reached by (force simp: watch_def filter_empty_conv)
  have w0: "watch {TypeYear} s0 = []"
    using watch_year_early(1)[of w req init] o by (simp add: watch_def init_def)
  have w1: "watch {TypeYear} s1 = []"
    using watch_year_early(2)[of w req s0] c w0 by simp
  have r0: "r0 = Inr ()"
  proof (cases r0)
    case (Inl e)
    then have "api_create w req = settle w (Inl e) s0"
      using o by (simp add: api_create_settle tryBlock_unfold)
    then show ?thesis
      using seen w0 by (simp add: watch_year_settle)
  qed simp
  have r1: "r1 = Inr ()"
  proof (cases r1)
    case (Inl e)
    then have "api_create w req = settle w (Inl e) s1"
      using o c r0 by (simp add: api_create_settle tryBlock_unfold)
    then show ?thesis
      using seen w1 by (simp add: watch_year_settle)
  qed simp
  have "nowarn init"
    by (simp add: nowarn_def init_def)
  then have "nowarn s0"
    using preservesD[OF nowarn_open _ o] by simp
  then have nw: "nowarn s1"
    using preservesD[OF nowarn_cred _ c] by simp
  note p = profile_absorbs[OF fails nw, of req]
  obtain s2 where ps: "fillProfile w req s1 = (Inr (), s2)"
    using p(1) by (cases "fillProfile w req s1") simp
  obtain t2 where pt: "fillProfile ?w' req s1 = (Inr (), t2)"
    using p(2) by (cases "fillProfile ?w' req s1") simp
  have sim2: "similar s2 t2"
    using p(3) ps pt by simp
  obtain r3 s3 where qs: "?post s2 = (r3, s3)"
    by (cases "?post s2")
  obtain r3' t3 where qt: "?post t2 = (r3', t3)"
    by (cases "?post t2")
  have par: "parallel ?post"
    by (intro parallel_andThen parallel_submit parallel_classify)
  have r3: "r3' = r3" and sim3: "similar s3 t3"
    using parallelD[OF par sim2] qs qt by simp_all
  have run: "api_create w req = settle w r3 s3"
    using o c r0 r1 ps qs by (simp add: api_create_settle tryBlock_unfold)
  have run': "api_create ?w' req = settle w r3 t3"
    using o c r0 r1 pt qt r3
    by (simp add: api_create_settle tryBlock_unfold phases_fixed settle_fixed)
  note fin = settle_similar[OF sim3, of w r3]
  let ?warn = "\<lparr>message = ''Profile inputs varying, attempting fallbacks...'',
      type = ''warning'', timestamp = clock w (Suc (length (log s1)))\<rparr>"
  let ?click = "(ClickSubmit, [''button[type=\"submit\"]''])"
  have "?warn \<in> set (log s2)"
    using p(4) ps by simp
  then have "?warn \<in> set (log s3)"
    using preservesD[OF preserves_andThen[OF logged_submit logged_classify] _ qs] by simp
  then have warned: "?warn \<in> set (log (state (api_create w req)))"
    unfolding run by (rule settle_preserves[OF logged_catch logged_finally])
  obtain rs ss where sub: "submitForm w s2 = (rs, ss)"
    by (cases "submitForm w s2")
  have "?click \<in> set (calls ss)"
    using submit_clicks[of w s2] sub by simp
  moreover have "s3 = ss \<or> s3 = snd (classifyOutcome w ss)"
    using qs sub by (auto simp: andThen_def thenDo_def split: sum.splits)
  ultimately have "?click \<in> set (calls s3)"
    using called_classify[of ?click w] by (auto simp: preserves_def)
  then have clicked: "?click \<in> set (calls (state (api_create w req)))"
    unfolding run by (rule settle_preserves[OF called_catch called_finally])
  have "caught (api_create w req) = caught (api_create ?w' req)
      \<and> escaped (api_create w req) = escaped (api_create ?w' req)
      \<and> similar (state (api_create w req)) (state (api_create ?w' req))"
    using fin by (simp only: run run')
  then show ?thesis
    using warned clicked by (simp add: similar_def) blast
qed

theorem profile_failure_is_absorbed_witness:
  "throws noYearInput TypeYear = Some (Error ''No element found for selector: input#year'')
   \<and> (TypeYear, [''input#year'', ''1990'']) \<in> set (calls (state (api_create noYearInput alice)))
   \<and> caught (api_create noYearInput alice) = caught (api_create (profileFixed noYearInput) alice)
   \<and> escaped (api_create noYearInput alice) = escaped (api_create (profileFixed noYearInput) alice)
   \<and> map_option verdict (sent (state (api_create noYearInput alice)))
       = map_option verdict (sent (state (api_create (profileFixed noYearInput) alice)))
   \<and> filter (\<lambda>p. snd p \<noteq> ''warning'') (map plain (log (state (api_create noYearInput alice))))
       = map plain (log (state (api_create (profileFixed noYearInput) alice)))
   \<and> length (log (state (api_create noYearInput alice)))
       = Suc (length (log (state (api_create (profileFixed noYearInput) alice))))
   \<and> (\<exists>ts. \<lparr>message = ''Profile inputs varying, attempting fallbacks...'',
             type = ''warning'', timestamp = ts\<rparr> \<in> set (log (state (api_create noYearInput alice))))
   \<and> (ClickSubmit, [''button[type=\"submit\"]''])
       \<in> set (calls (state (api_create noYearInput alice)))"
proof -
  have t: "throws noYearInput TypeYear = Some (Error ''No element found for selector: input#year'')"
    by (simp add: noYearInput_def)
  then have fails: "throws noYearInput TypeYear \<noteq> None \<or> throws noYearInput SelectMonth \<noteq> None
      \<or> throws noYearInput TypeDay \<noteq> None"
    by simp
  have reached: "(TypeYear, [''input#year'', ''1990''])
      \<in> set (calls (state (api_create noYearInput alice)))"
    by (simp add: create_defs run_defs noYearInput_def calm_def alice_def)
  show ?thesis
    using t reached profile_failure_is_absorbed[OF fails reached] by simp
qed

subsection \<open>One browser per request\<close>

text \<open>
  C3.  A request spawns exactly one browser: \<^verbatim>\<open>puppeteer.launch\<close> is called at most once,
  and once when no exception precedes it (the only statement before it that can throw is
  \<^verbatim>\<open>proxy.split\<close>, on a truthy \<open>proxy\<close> that is not a string).  The variable \<^verbatim>\<open>browser\<close> is
  set exactly when the call was made and returned; and whenever it is set, the last call
  of the run, on every path, is the \<^verbatim>\<open>browser.close()\<close> of \<^verbatim>\<open>finally\<close>.
\<close>

theorem one_browser_per_request:
  "length (filter (\<lambda>c. fst c = Launch) (calls (state (api_create w req)))) \<le> 1
   \<and> ((truthy (proxy req) \<longrightarrow> (\<exists>p. proxy req = Some (JStr p))) \<longrightarrow>
        length (filter (\<lambda>c. fst c = Launch) (calls (state (api_create w req)))) = 1)
   \<and> (browser (state (api_create w req)) \<longleftrightarrow>
        (\<exists>args. (Launch, args) \<in> set (calls (state (api_create w req)))) \<and> throws w Launch = None)
   \<and> (browser (state (api_create w req)) \<longrightarrow>
        last (calls (state (api_create w req))) = (CloseInFinally, []))"
proof -
  let ?out = "state (api_create w req)"
  have fl: "filter (\<lambda>c. fst c = Launch) (calls ?out)
      = filter (\<lambda>c. fst c = Launch) (filter (\<lambda>c. fst c = Launch \<or> fst c = Authenticate) (calls ?out))"
    by (rule filter_launch_early)
  have mem: "(\<exists>args. (Launch, args) \<in> set (calls ?out)) \<longleftrightarrow>
      filter (\<lambda>c. fst c = Launch) (calls ?out) \<noteq> []"
    by (force simp: filter_empty_conv)
  have closing: "browser ?out \<longrightarrow> last (calls ?out) = (CloseInFinally, [])"
  proof -
    obtain s2 where "?out = snd (finallyBlock w s2)"
      using api_create_final by blast
    then show ?thesis by (simp add: finally_calls)
  qed
  show ?thesis
  proof (cases "truthy (proxy req) \<longrightarrow> (\<exists>p. proxy req = Some (JStr p))")
    case True
    then have str: "truthy (proxy req) \<Longrightarrow> \<exists>p. proxy req = Some (JStr p)" by simp
    show ?thesis
      using closing True unfolding mem
      by (simp add: fl early_calls[OF str])
  next
    case False
    then have bad: "truthy (proxy req)" "\<And>p. proxy req \<noteq> Some (JStr p)" by auto
    show ?thesis
      using closing False unfolding mem
      by (simp add: fl early_calls_bad[OF bad])
  qed
qed

theorem one_browser_per_request_witness:
  "\<not> truthy (proxy alice)
   \<and> browser (state (api_create calm alice))
   \<and> length (filter (\<lambda>c. fst c = Launch) (calls (state (api_create calm alice)))) = 1
   \<and> last (calls (state (api_create calm alice))) = (CloseInFinally, [])"
proof -
  have h: "\<not> truthy (proxy alice)"
    by (simp add: alice_def)
  have b: "browser (state (api_create calm alice))"
    by (simp add: create_defs run_defs calm_def alice_def)
  show ?thesis
    using h b one_browser_per_request[of calm alice] by blast
qed

subsection \<open>The proxy string\<close>

text \<open>
  C4.  Given a proxy string \<^verbatim>\<open>host:port\<close>, the browser is launched with the argument
  \<^verbatim>\<open>--proxy-server=host:port\<close> after the default ones, and the page does not authenticate.
  Given \<^verbatim>\<open>host:port:user:password\<close>, the browser is launched with the same argument and,
  once the browser and its page exist, the page authenticates with \<open>user\<close> and
  \<open>password\<close>.  Without a proxy (any value that is not truthy) the browser gets the
  default arguments only and nothing authenticates.  The four parts are free of colons.
\<close>

theorem proxy_argument_and_authentication:
  assumes "CHR '':'' \<notin> set host" and "CHR '':'' \<notin> set port"
    and "CHR '':'' \<notin> set user" and "CHR '':'' \<notin> set pass"
  shows
   "(proxy req = Some (JStr (host @ '':'' @ port)) \<longrightarrow>
       filter (\<lambda>c. fst c = Launch \<or> fst c = Authenticate) (calls (state (api_create w req)))
       = [(Launch, defaultArgs @ [''--proxy-server='' @ host @ '':'' @ port])])
    \<and> (proxy req = Some (JStr (host @ '':'' @ port @ '':'' @ user @ '':'' @ pass)) \<longrightarrow>
       filter (\<lambda>c. fst c = Launch \<or> fst c = Authenticate) (calls (state (api_create w req)))
       = (Launch, defaultArgs @ [''--proxy-server='' @ host @ '':'' @ port])
         # (if throws w Launch = None \<and> throws w NewPage = None
            then [(Authenticate, [user, pass])] else []))
    \<and> (\<not> truthy (proxy req) \<longrightarrow>
       filter (\<lambda>c. fst c = Launch \<or> fst c = Authenticate) (calls (state (api_create w req)))
       = [(Launch, defaultArgs)])"
proof (intro conjI impI)
  assume p: "proxy req = Some (JStr (host @ '':'' @ port))"
  have str: "truthy (proxy req) \<Longrightarrow> \<exists>p. proxy req = Some (JStr p)"
    by (simp add: p)
  have parts: "proxyParts (proxy req) = [host, port]"
    using assms by (simp add: p proxyParts_str split_sep split_no_sep)
  show "filter (\<lambda>c. fst c = Launch \<or> fst c = Authenticate) (calls (state (api_create w req)))
       = [(Launch, defaultArgs @ [''--proxy-server='' @ host @ '':'' @ port])]"
    using early_calls(1)[of req w, OF str] unfolding parts by simp
next
  assume p: "proxy req = Some (JStr (host @ '':'' @ port @ '':'' @ user @ '':'' @ pass))"
  have str: "truthy (proxy req) \<Longrightarrow> \<exists>p. proxy req = Some (JStr p)"
    by (simp add: p)
  have parts: "proxyParts (proxy req) = [host, port, user, pass]"
    using assms by (simp add: p proxyParts_str split_sep split_no_sep)
  show "filter (\<lambda>c. fst c = Launch \<or> fst c = Authenticate) (calls (state (api_create w req)))
       = (Launch, defaultArgs @ [''--proxy-server='' @ host @ '':'' @ port])
         # (if throws w Launch = None \<and> throws w NewPage = None
            then [(Authenticate, [user, pass])] else [])"
    using early_calls(1)[of req w, OF str] unfolding parts by simp
next
  assume p: "\<not> truthy (proxy req)"
  then have str: "truthy (proxy req) \<Longrightarrow> \<exists>p. proxy req = Some (JStr p)"
    by simp
  show "filter (\<lambda>c. fst c = Launch \<or> fst c = Authenticate) (calls (state (api_create w req)))
       = [(Launch, defaultArgs)]"
    using early_calls(1)[of req w, OF str] unfolding proxyParts_falsy[OF p] by simp
qed

theorem proxy_argument_and_authentication_witness:
  "proxy viaProxy = Some (JStr (''10.0.0.7'' @ '':'' @ ''8080''))
   \<and> proxy viaAuthProxy =
      Some (JStr (''10.0.0.7'' @ '':'' @ ''8080'' @ '':'' @ ''bob'' @ '':'' @ ''s3cret''))
   \<and> \<not> truthy (proxy alice)
   \<and> filter (\<lambda>c. fst c = Launch \<or> fst c = Authenticate) (calls (state (api_create calm viaProxy)))
     = [(Launch, defaultArgs @ [''--proxy-server=10.0.0.7:8080''])]
   \<and> filter (\<lambda>c. fst c = Launch \<or> fst c = Authenticate)
         (calls (state (api_create calm viaAuthProxy)))
     = [(Launch, defaultArgs @ [''--proxy-server=10.0.0.7:8080'']),
        (Authenticate, [''bob'', ''s3cret''])]
   \<and> filter (\<lambda>c. fst c = Launch \<or> fst c = Authenticate) (calls (state (api_create calm alice)))
     = [(Launch, defaultArgs)]"
proof -
  have c: "CHR '':'' \<notin> set ''10.0.0.7''" "CHR '':'' \<notin> set ''8080''"
    "CHR '':'' \<notin> set ''bob''" "CHR '':'' \<notin> set ''s3cret''"
    by simp_all
  have p1: "proxy viaProxy = Some (JStr (''10.0.0.7'' @ '':'' @ ''8080''))"
    by (simp add: viaProxy_def)
  have p2: "proxy viaAuthProxy =
      Some (JStr (''10.0.0.7'' @ '':'' @ ''8080'' @ '':'' @ ''bob'' @ '':'' @ ''s3cret''))"
    by (simp add: viaAuthProxy_def)
  have p3: "\<not> truthy (proxy alice)"
    by (simp add: alice_def)
  have t: "throws calm Launch = None" "throws calm NewPage = None"
    by (simp_all add: calm_def)
  show ?thesis
    using proxy_argument_and_authentication[OF c, of viaProxy calm] p1
      proxy_argument_and_authentication[OF c, of viaAuthProxy calm] p2
      proxy_argument_and_authentication[OF c, of alice calm] p3 t
    by simp
qed

text \<open>
  C9.  A proxy string of exactly three parts launches the browser with
  \<^verbatim>\<open>--proxy-server=\<close> and its first two parts, and nothing authenticates;
  \<^verbatim>\<open>page.authenticate\<close> is called only for a proxy string of exactly four parts (with the
  third and the fourth); a proxy string of fewer than two parts adds no argument.
\<close>

theorem proxy_parts_decide:
  "(proxy req = Some (JStr p) \<and> length (split CHR '':'' p) = 3 \<longrightarrow>
      filter (\<lambda>c. fst c = Launch \<or> fst c = Authenticate) (calls (state (api_create w req)))
      = [(Launch, defaultArgs @
            [''--proxy-server='' @ split CHR '':'' p ! 0 @ '':'' @ split CHR '':'' p ! 1])])
   \<and> ((Authenticate, a) \<in> set (calls (state (api_create w req))) \<longrightarrow>
      (\<exists>q. proxy req = Some (JStr q) \<and> length (split CHR '':'' q) = 4
           \<and> a = [split CHR '':'' q ! 2, split CHR '':'' q ! 3]))
   \<and> (proxy req = Some (JStr p) \<and> length (split CHR '':'' p) < 2 \<longrightarrow>
      filter (\<lambda>c. fst c = Launch \<or> fst c = Authenticate) (calls (state (api_create w req)))
      = [(Launch, defaultArgs)])"
proof (intro conjI impI)
  assume "proxy req = Some (JStr p) \<and> length (split CHR '':'' p) = 3"
  then have p: "proxy req = Some (JStr p)" and n: "length (split CHR '':'' p) = 3"
    by simp_all
  from n have "p \<noteq> []" by auto
  then have parts: "proxyParts (proxy req) = split CHR '':'' p"
    by (simp add: p proxyParts_str)
  have str: "truthy (proxy req) \<Longrightarrow> \<exists>p. proxy req = Some (JStr p)"
    by (simp add: p)
  show "filter (\<lambda>c. fst c = Launch \<or> fst c = Authenticate) (calls (state (api_create w req)))
      = [(Launch, defaultArgs @
            [''--proxy-server='' @ split CHR '':'' p ! 0 @ '':'' @ split CHR '':'' p ! 1])]"
    using early_calls(1)[of req w, OF str] unfolding parts by (simp add: n)
next
  assume "proxy req = Some (JStr p) \<and> length (split CHR '':'' p) < 2"
  then have p: "proxy req = Some (JStr p)" and n: "length (split CHR '':'' p) < 2"
    by simp_all
  have str: "truthy (proxy req) \<Longrightarrow> \<exists>p. proxy req = Some (JStr p)"
    by (simp add: p)
  have "length (proxyParts (proxy req)) < 2"
    using n by (simp add: p proxyParts_def)
  then show "filter (\<lambda>c. fst c = Launch \<or> fst c = Authenticate)
        (calls (state (api_create w req))) = [(Launch, defaultArgs)]"
    using early_calls(1)[of req w, OF str] by simp
next
  assume "(Authenticate, a) \<in> set (calls (state (api_create w req)))"
  then have mem: "(Authenticate, a) \<in> set (filter (\<lambda>c. fst c = Launch \<or> fst c = Authenticate)
      (calls (state (api_create w req))))"
    by simp
  show "\<exists>q. proxy req = Some (JStr q) \<and> length (split CHR '':'' q) = 4
           \<and> a = [split CHR '':'' q ! 2, split CHR '':'' q ! 3]"
  proof (cases req rule: proxyParts_cases)
    case (str q)
    then have s: "truthy (proxy req) \<Longrightarrow> \<exists>p. proxy req = Some (JStr p)"
      by simp
    have "(Authenticate, a) \<in> set ((Launch, defaultArgs @ (if 2 \<le> length (proxyParts (proxy req))
        then [''--proxy-server='' @ proxyParts (proxy req) ! 0 @ '':'' @ proxyParts (proxy req) ! 1]
        else []))
     # (if throws w Launch = None \<and> throws w NewPage = None \<and> length (proxyParts (proxy req)) = 4
        then [(Authenticate, [proxyParts (proxy req) ! 2, proxyParts (proxy req) ! 3])] else []))"
      using mem by (simp only: early_calls(1)[of req w, OF s])
    then show ?thesis
      using str by (auto split: if_splits)
  next
    case falsy
    then have s: "truthy (proxy req) \<Longrightarrow> \<exists>p. proxy req = Some (JStr p)"
      by simp
    have "(Authenticate, a) \<in> set ((Launch, defaultArgs @ (if 2 \<le> length (proxyParts (proxy req))
        then [''--proxy-server='' @ proxyParts (proxy req) ! 0 @ '':'' @ proxyParts (proxy req) ! 1]
        else []))
     # (if throws w Launch = None \<and> throws w NewPage = None \<and> length (proxyParts (proxy req)) = 4
        then [(Authenticate, [proxyParts (proxy req) ! 2, proxyParts (proxy req) ! 3])] else []))"
      using mem by (simp only: early_calls(1)[of req w, OF s])
    then show ?thesis
      using falsy by (auto split: if_splits)
  next
    case bad
    have "(Authenticate, a) \<in> set []"
      using mem by (simp only: early_calls_bad(1)[of req w, OF bad])
    then show ?thesis by simp
  qed
qed

theorem proxy_parts_decide_witness:
  "proxy viaThreeParts = Some (JStr ''10.0.0.7:8080:bob'')
   \<and> length (split CHR '':'' ''10.0.0.7:8080:bob'') = 3
   \<and> filter (\<lambda>c. fst c = Launch \<or> fst c = Authenticate)
        (calls (state (api_create calm viaThreeParts)))
      = [(Launch, defaultArgs @ [''--proxy-server=10.0.0.7:8080''])]
   \<and> (Authenticate, [''bob'', ''s3cret'']) \<in> set (calls (state (api_create calm viaAuthProxy)))
   \<and> (\<exists>q. proxy viaAuthProxy = Some (JStr q) \<and> length (split CHR '':'' q) = 4
           \<and> [''bob'', ''s3cret''] = [split CHR '':'' q ! 2, split CHR '':'' q ! 3])
   \<and> proxy viaHostOnly = Some (JStr ''localhost'')
   \<and> length (split CHR '':'' ''localhost'') < 2
   \<and> filter (\<lambda>c. fst c = Launch \<or> fst c = Authenticate)
        (calls (state (api_create calm viaHostOnly)))
      = [(Launch, defaultArgs)]"
proof -
  have p3: "proxy viaThreeParts = Some (JStr ''10.0.0.7:8080:bob'')"
    by (simp add: viaThreeParts_def)
  have n3: "split CHR '':'' ''10.0.0.7:8080:bob'' = [''10.0.0.7'', ''8080'', ''bob'']"
    by simp
  have p1: "proxy viaHostOnly = Some (JStr ''localhost'')"
    by (simp add: viaHostOnly_def)
  have n1: "split CHR '':'' ''localhost'' = [''localhost'']"
    by simp
  have au: "(Authenticate, [''bob'', ''s3cret'']) \<in> set (calls (state (api_create calm viaAuthProxy)))"
    by (simp add: create_defs run_defs calm_def viaAuthProxy_def alice_def)
  show ?thesis
    using proxy_parts_decide[of viaThreeParts "''10.0.0.7:8080:bob''" calm]
      proxy_parts_decide[of viaAuthProxy _ calm "[''bob'', ''s3cret'']"]
      proxy_parts_decide[of viaHostOnly "''localhost''" calm]
      p3 p1 au
    unfolding n3 n1 by simp
qed

subsection \<open>The log\<close>

text \<open>
  C6.  A record of the log has a message, a category (the field \<open>type\<close>) and a time stamp
  (by the type \<open>log_entry\<close>), and \<^verbatim>\<open>addLog\<close> puts it at the end of the log.  The array
  sent to the caller is the whole log of the request in the order of the additions: its
  \<open>i\<close>-th record carries the \<open>i\<close>-th reading of the clock.
\<close>

theorem log_order_preserved:
  "log (addLog w msg ty s) =
      log s @ [\<lparr>message = msg, type = ty, timestamp = clock w (length (log s))\<rparr>]
   \<and> (sent (state (api_create w req)) = Some r \<longrightarrow>
        logs (body r) = log (state (api_create w req))
        \<and> map timestamp (logs (body r)) = map (clock w) [0..<length (logs (body r))])"
proof (intro conjI impI)
  show "log (addLog w msg ty s) =
      log s @ [\<lparr>message = msg, type = ty, timestamp = clock w (length (log s))\<rparr>]"
    by (simp add: addLog_def)
next
  assume r: "sent (state (api_create w req)) = Some r"
  show l: "logs (body r) = log (state (api_create w req))"
    using response_origin[OF r] by auto
  show "map timestamp (logs (body r)) = map (clock w) [0..<length (logs (body r))]"
    using stamped_final[of w req] unfolding l stamped_def .
qed

theorem log_order_preserved_witness:
  "\<exists>r. sent (state (api_create ticking alice)) = Some r
       \<and> logs (body r) = log (state (api_create ticking alice))
       \<and> map timestamp (logs (body r)) =
           [[], ''I'', ''II'', ''III'', ''IIII'', ''IIIII'', ''IIIIII'', ''IIIIIII'', ''IIIIIIII'']"
proof -
  have a: "sent (state (api_create ticking alice)) = Some \<lparr>statusCode = 200,
      body = \<lparr>success = True, logs = log (state (api_create ticking alice)), error = None\<rparr>\<rparr>"
    by (simp add: create_defs run_defs ticking_def calm_def alice_def)
  have n: "length (log (state (api_create ticking alice))) = 9"
    by (simp add: create_defs run_defs ticking_def calm_def alice_def)
  have c: "map (clock ticking) [0..<9] =
      [[], ''I'', ''II'', ''III'', ''IIII'', ''IIIII'', ''IIIIII'', ''IIIIIII'', ''IIIIIIII'']"
    by (simp add: ticking_def upt_rec[of 0] upt_rec[of 1] upt_rec[of 2] upt_rec[of 3] upt_rec[of 4]
          upt_rec[of 5] upt_rec[of 6] upt_rec[of 7] upt_rec[of 8] numeral_eq_Suc)
  show ?thesis
    using log_order_preserved[of ticking _ _ _ alice, THEN conjunct2, rule_format, OF a] a n c
    by simp
qed

end
